theory Spec2Isabelle
  imports Complex_Main
begin

section \<open>Python values and errors\<close>

text \<open>
  Exceptions of the Python program are values: a function that may raise returns
  \<open>error + 'a\<close>, with \<open>Inl\<close> the exception. Python integers are \<open>int\<close>. The
  double-precision coordinates of the mesh on the host are \<open>real\<close> numbers, with the two
  infinities of the bounding-box initialisation added by \<open>ext\<close> (no NaN, no signed
  zero); minimum and maximum never round. The single-precision arithmetic of the device
  is real arithmetic followed by a rounding function, applied after the cast of a value
  to single precision and after every operation.
\<close>

datatype error =
    ValueError string
  | ZeroDivisionError
  | IndexError
  | AttributeError
  | UnboundLocalError string

type_synonym vec3 = "real \<times> real \<times> real"
type_synonym face = "int \<times> int \<times> int"

text \<open>\<open>range(start, stop, step)\<close>: a zero step raises, a positive step counts up while
  below \<open>stop\<close>, a negative step counts down while above it.\<close>

function range_up :: "int \<Rightarrow> int \<Rightarrow> int \<Rightarrow> int list" where
  "range_up i stop step =
     (if 0 < step \<and> i < stop then i # range_up (i + step) stop step else [])"
  by pat_completeness auto
termination
  by (relation "measure (\<lambda>(i, stop, step). nat (stop - i))") auto

function range_down :: "int \<Rightarrow> int \<Rightarrow> int \<Rightarrow> int list" where
  "range_down i stop step =
     (if step < 0 \<and> stop < i then i # range_down (i + step) stop step else [])"
  by pat_completeness auto
termination
  by (relation "measure (\<lambda>(i, stop, step). nat (i - stop))") auto

declare range_up.simps [simp del] range_down.simps [simp del]

definition py_range :: "int \<Rightarrow> int \<Rightarrow> int \<Rightarrow> error + int list" where
  "py_range start stop step =
     (if step = 0 then Inl (ValueError ''range() arg 3 must not be zero'')
      else if 0 < step then Inr (range_up start stop step)
      else Inr (range_down start stop step))"

text \<open>The slice \<open>xs[lo:hi]\<close>: a negative bound counts from the end, and both bounds are
  clamped to the sequence.\<close>

definition py_slice :: "'a list \<Rightarrow> int \<Rightarrow> int \<Rightarrow> 'a list" where
  "py_slice xs lo hi =
     (let n = int (length xs);
          a = (if lo < 0 then max (lo + n) 0 else min lo n);
          b = (if hi < 0 then max (hi + n) 0 else min hi n)
      in take (nat (b - a)) (drop (nat a) xs))"

section \<open>The large-model handler\<close>

record mesh =
  vertices :: "vec3 list"
  faces :: "face list"

record handler =
  file_path :: string
  chunk_size :: int
  concatenated_mesh :: "mesh option"
  total_vertices :: int
  total_faces :: int
  is_scene :: bool

definition init :: "string \<Rightarrow> int \<Rightarrow> handler" where
  "init fp cs =
     \<lparr>file_path = fp, chunk_size = cs, concatenated_mesh = None,
      total_vertices = 0, total_faces = 0, is_scene = False\<rparr>"

text \<open>\<open>load_model_info\<close>. Reading the file and flattening a scene are the work of the
  external mesh library; the model takes the flattened mesh \<open>m\<close> that the method stores in
  \<open>concatenated_mesh\<close> and whether it came from a scene, and sets the two counts from it as
  the method does.\<close>

definition load_model_info :: "handler \<Rightarrow> bool \<Rightarrow> mesh \<Rightarrow> handler" where
  "load_model_info h scene m =
     h\<lparr>is_scene := scene, concatenated_mesh := Some m,
       total_vertices := int (length (vertices m)),
       total_faces := int (length (faces m))\<rparr>"

text \<open>The two generators, as the list of chunks they yield (or the exception raised when
  they are first advanced). The mesh is read only when the range is not empty.\<close>

definition stream_vertices :: "handler \<Rightarrow> error + vec3 list list" where
  "stream_vertices h =
     (case py_range 0 (total_vertices h) (chunk_size h) of
        Inl e \<Rightarrow> Inl e
      | Inr [] \<Rightarrow> Inr []
      | Inr (i # js) \<Rightarrow>
          (case concatenated_mesh h of
             None \<Rightarrow> Inl AttributeError
           | Some m \<Rightarrow> Inr (map (\<lambda>i. py_slice (vertices m) i (i + chunk_size h)) (i # js))))"

definition stream_faces :: "handler \<Rightarrow> error + face list list" where
  "stream_faces h =
     (case py_range 0 (total_faces h) (chunk_size h) of
        Inl e \<Rightarrow> Inl e
      | Inr [] \<Rightarrow> Inr []
      | Inr (i # js) \<Rightarrow>
          (case concatenated_mesh h of
             None \<Rightarrow> Inl AttributeError
           | Some m \<Rightarrow> Inr (map (\<lambda>i. py_slice (faces m) i (i + chunk_size h)) (i # js))))"

text \<open>A bound of the box is a coordinate or one of the two infinities the loop starts
  from. \<open>np.minimum\<close> and \<open>np.maximum\<close> pick the smaller and the larger of two such
  values.\<close>

datatype ext = MInf | Fin real | PInf

type_synonym ext3 = "ext \<times> ext \<times> ext"

fun ext_le :: "ext \<Rightarrow> ext \<Rightarrow> bool" where
  "ext_le MInf _ = True"
| "ext_le (Fin a) MInf = False"
| "ext_le (Fin a) (Fin b) = (a \<le> b)"
| "ext_le (Fin a) PInf = True"
| "ext_le PInf PInf = True"
| "ext_le PInf _ = False"

definition ext_min :: "ext \<Rightarrow> ext \<Rightarrow> ext" where
  "ext_min a b = (if ext_le a b then a else b)"

definition ext_max :: "ext \<Rightarrow> ext \<Rightarrow> ext" where
  "ext_max a b = (if ext_le a b then b else a)"

text \<open>\<open>np.min(chunk, axis=0)\<close> and \<open>np.max(chunk, axis=0)\<close>: the componentwise extremum
  of the rows of a chunk; a chunk with no row raises.\<close>

definition vmin :: "vec3 \<Rightarrow> vec3 \<Rightarrow> vec3" where
  "vmin a b = (case (a, b) of ((ax, ay, az), (bx, by, bz)) \<Rightarrow> (min ax bx, min ay by, min az bz))"

definition vmax :: "vec3 \<Rightarrow> vec3 \<Rightarrow> vec3" where
  "vmax a b = (case (a, b) of ((ax, ay, az), (bx, by, bz)) \<Rightarrow> (max ax bx, max ay by, max az bz))"

definition np_min_axis0 :: "vec3 list \<Rightarrow> error + vec3" where
  "np_min_axis0 chunk =
     (case chunk of
        [] \<Rightarrow> Inl (ValueError ''zero-size array to reduction operation minimum which has no identity'')
      | v # vs \<Rightarrow> Inr (foldl vmin v vs))"

definition np_max_axis0 :: "vec3 list \<Rightarrow> error + vec3" where
  "np_max_axis0 chunk =
     (case chunk of
        [] \<Rightarrow> Inl (ValueError ''zero-size array to reduction operation maximum which has no identity'')
      | v # vs \<Rightarrow> Inr (foldl vmax v vs))"

definition np_minimum :: "ext3 \<Rightarrow> vec3 \<Rightarrow> ext3" where
  "np_minimum a b =
     (case (a, b) of ((ax, ay, az), (bx, by, bz)) \<Rightarrow>
        (ext_min ax (Fin bx), ext_min ay (Fin by), ext_min az (Fin bz)))"

definition np_maximum :: "ext3 \<Rightarrow> vec3 \<Rightarrow> ext3" where
  "np_maximum a b =
     (case (a, b) of ((ax, ay, az), (bx, by, bz)) \<Rightarrow>
        (ext_max ax (Fin bx), ext_max ay (Fin by), ext_max az (Fin bz)))"

text \<open>\<open>calculate_bounding_box\<close>: the loop over the streamed vertex chunks, from the
  initial extrema.\<close>

fun bounding_box_loop :: "vec3 list list \<Rightarrow> ext3 \<Rightarrow> ext3 \<Rightarrow> error + (ext3 \<times> ext3)" where
  "bounding_box_loop [] min_coords max_coords = Inr (min_coords, max_coords)"
| "bounding_box_loop (chunk # rest) min_coords max_coords =
     (case np_min_axis0 chunk of
        Inl e \<Rightarrow> Inl e
      | Inr cmin \<Rightarrow>
          (case np_max_axis0 chunk of
             Inl e \<Rightarrow> Inl e
           | Inr cmax \<Rightarrow>
               bounding_box_loop rest (np_minimum min_coords cmin) (np_maximum max_coords cmax)))"

definition calculate_bounding_box :: "handler \<Rightarrow> error + (ext3 \<times> ext3)" where
  "calculate_bounding_box h =
     (case stream_vertices h of
        Inl e \<Rightarrow> Inl e
      | Inr chunks \<Rightarrow> bounding_box_loop chunks (PInf, PInf, PInf) (MInf, MInf, MInf))"

section \<open>External primitives and their effects\<close>

text \<open>
  The random draws, the device query, the device arithmetic and the worker pool belong to
  external libraries. They are parameters of the model: each draw primitive is a function
  of an explicit generator state \<open>'g\<close> that returns its result and the next state, and
  every call of an external primitive is recorded, in order, in a trace of events. A
  \<open>world\<close> is the generator state with the trace so far. The worker pool of the point
  sampler is modelled in submission order, one event per submitted task.

  \<open>sample_surface_even\<close> is \<open>trimesh.sample.sample_surface_even\<close>: it returns a pair, the
  array of points and the array of the face index of each point. \<open>mesh_sample\<close> is
  \<open>mesh.sample\<close>, which returns the array of points alone. \<open>float32\<close> is the rounding of a
  real number to single precision.
\<close>

datatype event =
    LogInfo
  | LogWarning string
  | CudaIsAvailable
  | SampleSurfaceEven "face list" int
  | Submit int
  | GpuSessionEnter
  | GpuSessionExit
  | AllocateGpuTensor
  | Multinomial "real list" int
  | Rand int

record 'g externals =
  cuda_is_available :: bool
  sample_surface_even ::
    "'g \<Rightarrow> vec3 list \<Rightarrow> face list \<Rightarrow> int \<Rightarrow> (vec3 list \<times> int list) \<times> 'g"
  mesh_sample :: "'g \<Rightarrow> mesh \<Rightarrow> int \<Rightarrow> vec3 list \<times> 'g"
  multinomial :: "'g \<Rightarrow> real list \<Rightarrow> int \<Rightarrow> int list \<times> 'g"
  rand :: "'g \<Rightarrow> int \<Rightarrow> real list \<times> 'g"
  float32 :: "real \<Rightarrow> real"

type_synonym 'g world = "'g \<times> event list"

definition emit :: "event \<Rightarrow> 'g world \<Rightarrow> 'g world" where
  "emit e w = (fst w, snd w @ [e])"

definition call_sample_surface_even ::
  "'g externals \<Rightarrow> vec3 list \<Rightarrow> face list \<Rightarrow> int \<Rightarrow> 'g world
     \<Rightarrow> (vec3 list \<times> int list) \<times> 'g world" where
  "call_sample_surface_even X vs fs n w =
     (case sample_surface_even X (fst w) vs fs n of
        (drawn, g') \<Rightarrow> (drawn, (g', snd w @ [SampleSurfaceEven fs n])))"

definition call_mesh_sample ::
  "'g externals \<Rightarrow> mesh \<Rightarrow> int \<Rightarrow> 'g world \<Rightarrow> vec3 list \<times> 'g world" where
  "call_mesh_sample X m n w =
     (case mesh_sample X (fst w) m n of
        (pts, g') \<Rightarrow> (pts, (g', snd w @ [Submit n])))"

definition call_multinomial ::
  "'g externals \<Rightarrow> real list \<Rightarrow> int \<Rightarrow> 'g world \<Rightarrow> int list \<times> 'g world" where
  "call_multinomial X probs n w =
     (case multinomial X (fst w) probs n of
        (idx, g') \<Rightarrow> (idx, (g', snd w @ [Multinomial probs n])))"

definition call_rand :: "'g externals \<Rightarrow> int \<Rightarrow> 'g world \<Rightarrow> real list \<times> 'g world" where
  "call_rand X n w =
     (case rand X (fst w) n of
        (rs, g') \<Rightarrow> (rs, (g', snd w @ [Rand n])))"

text \<open>\<open>np.vstack\<close> of a list of point arrays; an empty list raises.\<close>

definition np_vstack :: "vec3 list list \<Rightarrow> error + vec3 list" where
  "np_vstack arrays =
     (if arrays = [] then Inl (ValueError ''need at least one array to concatenate'')
      else Inr (concat arrays))"

text \<open>\<open>np.vstack\<close> of a list whose elements are the pairs returned by
  \<open>sample_surface_even\<close>. Each element is first made an array of its own; a pair of an
  array of points, of shape \<open>(n, 3)\<close>, and an array of indices, of shape \<open>(n)\<close>, is not
  rectangular, and the conversion raises, for every \<open>n\<close>. So the call raises on every
  list: on the empty one as above, on any other at its first element. (The text of the
  second error is cut after its first sentence; the original goes on with the shape
  found.)\<close>

definition np_vstack_pairs :: "(vec3 list \<times> int list) list \<Rightarrow> error + vec3 list" where
  "np_vstack_pairs arrays =
     (if arrays = [] then Inl (ValueError ''need at least one array to concatenate'')
      else Inl (ValueError ''setting an array element with a sequence.''))"

section \<open>Chunked sampling on the CPU\<close>

fun cpu_chunk_loop ::
  "'g externals \<Rightarrow> vec3 list \<Rightarrow> int \<Rightarrow> face list list \<Rightarrow> (vec3 list \<times> int list) list
     \<Rightarrow> 'g world \<Rightarrow> (vec3 list \<times> int list) list \<times> 'g world" where
  "cpu_chunk_loop X vs samples_per_face [] samples w = (samples, w)"
| "cpu_chunk_loop X vs samples_per_face (face_chunk # rest) samples w =
     (case call_sample_surface_even X vs face_chunk
             (samples_per_face * int (length face_chunk)) w of
        (chunk_samples, w') \<Rightarrow>
          cpu_chunk_loop X vs samples_per_face rest (samples @ [chunk_samples]) w')"

text \<open>\<open>_sample_points_cpu\<close>, up to its last statement: the list \<open>samples\<close> as it stands
  before \<open>np.vstack\<close>. The integer division raises on a handler with no face. A handler
  whose mesh was never loaded cannot pass a mesh to the draw primitive. What the draw
  primitive returns is appended whole, as the method does.\<close>

definition sample_points_cpu_draws ::
  "'g externals \<Rightarrow> handler \<Rightarrow> int \<Rightarrow> 'g world
     \<Rightarrow> error + ((vec3 list \<times> int list) list \<times> 'g world)" where
  "sample_points_cpu_draws X h num_samples w =
     (if total_faces h = 0 then Inl ZeroDivisionError
      else
        let samples_per_face = num_samples div total_faces h;
            remaining_samples = num_samples mod total_faces h
        in case stream_faces h of
             Inl e \<Rightarrow> Inl e
           | Inr chunks \<Rightarrow>
               (case concatenated_mesh h of
                  None \<Rightarrow> (if 0 < remaining_samples then Inl AttributeError else Inr ([], w))
                | Some m \<Rightarrow>
                    (case cpu_chunk_loop X (vertices m) samples_per_face chunks [] w of
                       (samples, w1) \<Rightarrow>
                         (if 0 < remaining_samples
                          then (case call_sample_surface_even X (vertices m) (faces m)
                                       remaining_samples w1 of
                                  (extra_samples, w2) \<Rightarrow> Inr (samples @ [extra_samples], w2))
                          else Inr (samples, w1)))))"

text \<open>\<open>_sample_points_cpu\<close>: the draws, then \<open>np.vstack(samples)\<close>.\<close>

definition sample_points_cpu ::
  "'g externals \<Rightarrow> handler \<Rightarrow> int \<Rightarrow> 'g world \<Rightarrow> error + (vec3 list \<times> 'g world)" where
  "sample_points_cpu X h num_samples w =
     (case sample_points_cpu_draws X h num_samples w of
        Inl e \<Rightarrow> Inl e
      | Inr (samples, w') \<Rightarrow>
          (case np_vstack_pairs samples of
             Inl e \<Rightarrow> Inl e
           | Inr pts \<Rightarrow> Inr (pts, w')))"

section \<open>The thread-pool point sampler on the CPU\<close>

fun run_tasks ::
  "'g externals \<Rightarrow> mesh \<Rightarrow> int list \<Rightarrow> 'g world \<Rightarrow> vec3 list list \<times> 'g world" where
  "run_tasks X m [] w = ([], w)"
| "run_tasks X m (n # ns) w =
     (case call_mesh_sample X m n w of
        (pts, w1) \<Rightarrow> (case run_tasks X m ns w1 of (rest, w2) \<Rightarrow> (pts # rest, w2)))"

text \<open>\<open>_sample_points_on_cpu\<close>. \<open>futures\<close> is the list of the counts given to the
  submitted tasks; a pool of width zero or less is refused by the executor.\<close>

definition sample_points_on_cpu ::
  "'g externals \<Rightarrow> mesh \<Rightarrow> int \<Rightarrow> int \<Rightarrow> 'g world \<Rightarrow> error + (vec3 list \<times> 'g world)" where
  "sample_points_on_cpu X m num_samples num_threads w =
     (let w0 = emit LogInfo w in
      if num_threads = 0 then Inl ZeroDivisionError
      else
        let samples_per_thread = num_samples div num_threads;
            remaining_samples = num_samples mod num_threads
        in if num_threads \<le> 0 then Inl (ValueError ''max_workers must be greater than 0'')
           else
             let futures = replicate (nat num_threads) samples_per_thread @
                           (if 0 < remaining_samples then [remaining_samples] else [])
             in case run_tasks X m futures w0 of
                  (results, w1) \<Rightarrow>
                    (case np_vstack results of
                       Inl e \<Rightarrow> Inl e
                     | Inr sampled_points \<Rightarrow> Inr (sampled_points, emit LogInfo w1)))"

section \<open>Sampling on the GPU\<close>

text \<open>Indexing with an index tensor: a negative index counts from the end, an index out
  of range raises.\<close>

definition py_index :: "'a list \<Rightarrow> int \<Rightarrow> error + 'a" where
  "py_index xs i =
     (if 0 \<le> i \<and> i < int (length xs) then Inr (xs ! nat i)
      else if i < 0 \<and> - int (length xs) \<le> i then Inr (xs ! nat (i + int (length xs)))
      else Inl IndexError)"

fun gather :: "'a list \<Rightarrow> int list \<Rightarrow> error + 'a list" where
  "gather xs [] = Inr []"
| "gather xs (i # rest) =
     (case py_index xs i of
        Inl e \<Rightarrow> Inl e
      | Inr x \<Rightarrow> (case gather xs rest of Inl e \<Rightarrow> Inl e | Inr ys \<Rightarrow> Inr (x # ys)))"

text \<open>The cast of the vertices to single precision, \<open>dtype=torch.float32\<close>, and the
  arithmetic of the device on vectors. \<open>R\<close> is the rounding; every operation rounds its
  result.\<close>

definition to_float32 :: "(real \<Rightarrow> real) \<Rightarrow> vec3 list \<Rightarrow> vec3 list" where
  "to_float32 R vs = map (\<lambda>(x, y, z). (R x, R y, R z)) vs"

definition vadd :: "(real \<Rightarrow> real) \<Rightarrow> vec3 \<Rightarrow> vec3 \<Rightarrow> vec3" where
  "vadd R a b =
     (case (a, b) of ((ax, ay, az), (bx, by, bz)) \<Rightarrow> (R (ax + bx), R (ay + by), R (az + bz)))"

definition vsub :: "(real \<Rightarrow> real) \<Rightarrow> vec3 \<Rightarrow> vec3 \<Rightarrow> vec3" where
  "vsub R a b =
     (case (a, b) of ((ax, ay, az), (bx, by, bz)) \<Rightarrow> (R (ax - bx), R (ay - by), R (az - bz)))"

definition vscale :: "(real \<Rightarrow> real) \<Rightarrow> real \<Rightarrow> vec3 \<Rightarrow> vec3" where
  "vscale R k a = (case a of (ax, ay, az) \<Rightarrow> (R (k * ax), R (k * ay), R (k * az)))"

definition cross :: "(real \<Rightarrow> real) \<Rightarrow> vec3 \<Rightarrow> vec3 \<Rightarrow> vec3" where
  "cross R a b =
     (case (a, b) of ((ax, ay, az), (bx, by, bz)) \<Rightarrow>
        (R (R (ay * bz) - R (az * by)),
         R (R (az * bx) - R (ax * bz)),
         R (R (ax * by) - R (ay * bx))))"

definition vnorm :: "(real \<Rightarrow> real) \<Rightarrow> vec3 \<Rightarrow> real" where
  "vnorm R a =
     (case a of (ax, ay, az) \<Rightarrow> R (sqrt (R (R (R (ax * ax) + R (ay * ay)) + R (az * az)))))"

text \<open>The columns of a tensor of three rows of three numbers, as rows.\<close>

fun columns :: "vec3 list \<Rightarrow> vec3 list" where
  "columns [(x0, y0, z0), (x1, y1, z1), (x2, y2, z2)] = [(x0, x1, x2), (y0, y1, y2), (z0, z1, z2)]"
| "columns rows = rows"

text \<open>\<open>torch.cross(a, b)\<close> with no \<open>dim\<close>: the cross product runs along the first
  dimension of size 3. For tensors of shape \<open>(c, 3)\<close> that is the dimension of the
  coordinates, so one product for each row, unless \<open>c = 3\<close>: a tensor of exactly three
  rows is crossed along its rows, one product for each column.\<close>

definition torch_cross :: "(real \<Rightarrow> real) \<Rightarrow> vec3 list \<Rightarrow> vec3 list \<Rightarrow> vec3 list" where
  "torch_cross R a b =
     (if length a = 3 \<and> length b = 3
      then columns (map (\<lambda>(p, q). cross R p q) (zip (columns a) (columns b)))
      else map (\<lambda>(p, q). cross R p q) (zip a b))"

text \<open>The three columns \<open>faces[:, 0]\<close>, \<open>faces[:, 1]\<close>, \<open>faces[:, 2]\<close> of a face tensor.\<close>

definition col0 :: "face list \<Rightarrow> int list" where
  "col0 fs = map (\<lambda>(a, b, c). a) fs"

definition col1 :: "face list \<Rightarrow> int list" where
  "col1 fs = map (\<lambda>(a, b, c). b) fs"

definition col2 :: "face list \<Rightarrow> int list" where
  "col2 fs = map (\<lambda>(a, b, c). c) fs"

text \<open>Face areas and face probabilities of a face tensor: half the norm, row by row, of
  \<open>torch.cross(v1 - v0, v2 - v0)\<close>, divided by the sum of the areas. Tensors of one
  length are lists, and an elementwise operation is a map over the zipped lists. (A sum
  of zero makes the quotient of the device a NaN; here it is the quotient of HOL.)\<close>

definition face_areas ::
  "(real \<Rightarrow> real) \<Rightarrow> vec3 list \<Rightarrow> vec3 list \<Rightarrow> vec3 list \<Rightarrow> real list" where
  "face_areas R v0 v1 v2 =
     map (\<lambda>c. R (0.5 * vnorm R c))
       (torch_cross R (map (\<lambda>(b, a). vsub R b a) (zip v1 v0))
                      (map (\<lambda>(c, a). vsub R c a) (zip v2 v0)))"

definition tensor_sum :: "(real \<Rightarrow> real) \<Rightarrow> real list \<Rightarrow> real" where
  "tensor_sum R xs = foldl (\<lambda>s a. R (s + a)) 0 xs"

definition chunk_face_probs ::
  "(real \<Rightarrow> real) \<Rightarrow> vec3 list \<Rightarrow> face list \<Rightarrow> error + real list" where
  "chunk_face_probs R vs fs =
     (case gather vs (col0 fs) of
        Inl e \<Rightarrow> Inl e
      | Inr v0 \<Rightarrow>
          (case gather vs (col1 fs) of
             Inl e \<Rightarrow> Inl e
           | Inr v1 \<Rightarrow>
               (case gather vs (col2 fs) of
                  Inl e \<Rightarrow> Inl e
                | Inr v2 \<Rightarrow>
                    (let areas = face_areas R v0 v1 v2
                     in Inr (map (\<lambda>a. R (a / tensor_sum R areas)) areas)))))"

text \<open>The sampled points \<open>u * vertices[faces[idx, 0]] + v * vertices[faces[idx, 1]] +
  w * vertices[faces[idx, 2]]\<close>, for weight tensors \<open>u\<close>, \<open>v\<close>, \<open>w\<close>; \<open>vs\<close> is the vertex
  tensor of the device, already cast.\<close>

definition weighted_points ::
  "(real \<Rightarrow> real) \<Rightarrow> vec3 list \<Rightarrow> face list \<Rightarrow> int list \<Rightarrow> real list \<Rightarrow> real list
     \<Rightarrow> real list \<Rightarrow> error + vec3 list" where
  "weighted_points R vs fs face_indices u v w =
     (case gather fs face_indices of
        Inl e \<Rightarrow> Inl e
      | Inr sampled_faces \<Rightarrow>
          (case gather vs (col0 sampled_faces) of
             Inl e \<Rightarrow> Inl e
           | Inr p0 \<Rightarrow>
               (case gather vs (col1 sampled_faces) of
                  Inl e \<Rightarrow> Inl e
                | Inr p1 \<Rightarrow>
                    (case gather vs (col2 sampled_faces) of
                       Inl e \<Rightarrow> Inl e
                     | Inr p2 \<Rightarrow>
                         Inr (map (\<lambda>(u, v, w, a, b, c).
                                     vadd R (vadd R (vscale R u a) (vscale R v b)) (vscale R w c))
                                (zip u (zip v (zip w (zip p0 (zip p1 p2))))))))))"

text \<open>The barycentric weights \<open>1 - r1\<close>, \<open>r1 * (1 - r2)\<close>, \<open>r1 * r2\<close>, elementwise, where
  \<open>r1\<close> is already the square root of the uniform draw.\<close>

definition weight_u :: "(real \<Rightarrow> real) \<Rightarrow> real list \<Rightarrow> real list" where
  "weight_u R r1 = map (\<lambda>a. R (1 - a)) r1"

definition weight_v :: "(real \<Rightarrow> real) \<Rightarrow> real list \<Rightarrow> real list \<Rightarrow> real list" where
  "weight_v R r1 r2 = map (\<lambda>(a, b). R (a * R (1 - b))) (zip r1 r2)"

definition weight_w :: "(real \<Rightarrow> real) \<Rightarrow> real list \<Rightarrow> real list \<Rightarrow> real list" where
  "weight_w R r1 r2 = map (\<lambda>(a, b). R (a * b)) (zip r1 r2)"

text \<open>Modelled from the spec: \<open>resource_manager.allocate_gpu_tensor\<close> and
  \<open>resource_manager.gpu_session\<close> are not among the sources. The allocation primitive
  returns its argument as a device tensor of the element type asked for, and the session
  is a scope around the sampling; the model records one event for each allocation and
  for entering and leaving the session. The cast to the element type is written where
  the primitive is called.\<close>

definition allocate_gpu_tensor :: "'a \<Rightarrow> 'g world \<Rightarrow> 'a \<times> 'g world" where
  "allocate_gpu_tensor x w = (x, emit AllocateGpuTensor w)"

text \<open>One batch of the GPU sampler: draw \<open>n\<close> face indices from \<open>face_probs\<close>, draw the
  two uniform tensors, and combine the vertices of the drawn faces. \<open>k\<close> is the length
  given to the two uniform draws.\<close>

definition gpu_batch ::
  "'g externals \<Rightarrow> vec3 list \<Rightarrow> face list \<Rightarrow> real list \<Rightarrow> int \<Rightarrow> (int list \<Rightarrow> int)
     \<Rightarrow> 'g world \<Rightarrow> error + (vec3 list \<times> 'g world)" where
  "gpu_batch X vs fs face_probs n k w =
     (case call_multinomial X face_probs n w of
        (face_indices, w1) \<Rightarrow>
          (case call_rand X (k face_indices) w1 of
             (a, w2) \<Rightarrow>
               (case call_rand X (k face_indices) w2 of
                  (r2, w3) \<Rightarrow>
                    (let r1 = map (\<lambda>x. float32 X (sqrt x)) a
                     in case weighted_points (float32 X) vs fs face_indices
                               (weight_u (float32 X) r1) (weight_v (float32 X) r1 r2)
                               (weight_w (float32 X) r1 r2) of
                          Inl e \<Rightarrow> Inl e
                        | Inr sample_points \<Rightarrow> Inr (sample_points, w3)))))"

text \<open>The loop of \<open>_sample_points_gpu\<close> over the face chunks. \<open>latest\<close> holds the
  variables \<open>faces\<close> and \<open>face_probs\<close> as the latest iteration left them; before the first
  iteration they are unbound.\<close>

fun gpu_chunk_loop ::
  "'g externals \<Rightarrow> vec3 list \<Rightarrow> int \<Rightarrow> face list list \<Rightarrow> vec3 list list
     \<Rightarrow> (face list \<times> real list) option \<Rightarrow> 'g world
     \<Rightarrow> error + (vec3 list list \<times> (face list \<times> real list) option \<times> 'g world)" where
  "gpu_chunk_loop X vs samples_per_face [] samples latest w = Inr (samples, latest, w)"
| "gpu_chunk_loop X vs samples_per_face (face_chunk # rest) samples latest w =
     (case allocate_gpu_tensor face_chunk w of
        (fs, w0) \<Rightarrow>
          (case chunk_face_probs (float32 X) vs fs of
             Inl e \<Rightarrow> Inl e
           | Inr face_probs \<Rightarrow>
               (case gpu_batch X vs fs face_probs
                       (samples_per_face * int (length face_chunk))
                       (\<lambda>face_indices. int (length face_indices)) w0 of
                  Inl e \<Rightarrow> Inl e
                | Inr (sample_points, w1) \<Rightarrow>
                    gpu_chunk_loop X vs samples_per_face rest (samples @ [sample_points])
                      (Some (fs, face_probs)) w1)))"

text \<open>\<open>_sample_points_gpu\<close>. The vertices are allocated on the device in single
  precision. The remainder batch reuses \<open>faces\<close> and \<open>face_probs\<close> of the latest chunk.\<close>

definition sample_points_gpu ::
  "'g externals \<Rightarrow> handler \<Rightarrow> int \<Rightarrow> 'g world \<Rightarrow> error + (vec3 list \<times> 'g world)" where
  "sample_points_gpu X h num_samples w =
     (if total_faces h = 0 then Inl ZeroDivisionError
      else
        let samples_per_face = num_samples div total_faces h;
            remaining_samples = num_samples mod total_faces h;
            w0 = emit GpuSessionEnter w
        in case concatenated_mesh h of
             None \<Rightarrow> Inl AttributeError
           | Some m \<Rightarrow>
               (case allocate_gpu_tensor (to_float32 (float32 X) (vertices m)) w0 of
                  (vs, w1) \<Rightarrow>
                    (case stream_faces h of
                       Inl e \<Rightarrow> Inl e
                     | Inr chunks \<Rightarrow>
                         (case gpu_chunk_loop X vs samples_per_face chunks [] None w1 of
                            Inl e \<Rightarrow> Inl e
                          | Inr (samples, latest, w2) \<Rightarrow>
                              (case (if 0 < remaining_samples
                                     then (case latest of
                                             None \<Rightarrow> Inl (UnboundLocalError ''face_probs'')
                                           | Some (fs, face_probs) \<Rightarrow>
                                               (case gpu_batch X vs fs face_probs remaining_samples
                                                       (\<lambda>_. remaining_samples) w2 of
                                                  Inl e \<Rightarrow> Inl e
                                                | Inr (extra_points, w3) \<Rightarrow>
                                                    Inr (samples @ [extra_points], w3)))
                                     else Inr (samples, w2)) of
                                 Inl e \<Rightarrow> Inl e
                               | Inr (samples', w4) \<Rightarrow>
                                   (case np_vstack samples' of
                                      Inl e \<Rightarrow> Inl e
                                    | Inr pts \<Rightarrow> Inr (pts, emit GpuSessionExit w4)))))))"

text \<open>\<open>_sample_points_on_gpu\<close> of the point sampler: the vertices cast to single
  precision, and one batch over the whole mesh.\<close>

definition sample_points_on_gpu ::
  "'g externals \<Rightarrow> mesh \<Rightarrow> int \<Rightarrow> 'g world \<Rightarrow> error + (vec3 list \<times> 'g world)" where
  "sample_points_on_gpu X m num_samples w =
     (let w0 = emit LogInfo w;
          vs = to_float32 (float32 X) (vertices m)
      in case chunk_face_probs (float32 X) vs (faces m) of
           Inl e \<Rightarrow> Inl e
         | Inr face_probs \<Rightarrow>
             (case gpu_batch X vs (faces m) face_probs num_samples
                     (\<lambda>_. num_samples) w0 of
                Inl e \<Rightarrow> Inl e
              | Inr (sampled_points, w1) \<Rightarrow> Inr (sampled_points, emit LogInfo w1)))"

section \<open>Choosing the path\<close>

text \<open>\<open>LargeModelHandler.sample_points\<close>: without \<open>use_gpu\<close> the CPU sampler is called
  at once, before anything of the device library is imported; otherwise the device is
  queried (the import is taken to succeed), and a missing device gives a warning and the
  CPU sampler.\<close>

definition sample_points ::
  "'g externals \<Rightarrow> handler \<Rightarrow> int \<Rightarrow> bool \<Rightarrow> 'g world \<Rightarrow> error + (vec3 list \<times> 'g world)" where
  "sample_points X h num_samples use_gpu w =
     (if \<not> use_gpu then sample_points_cpu X h num_samples w
      else
        let w1 = emit CudaIsAvailable w
        in if use_gpu \<and> cuda_is_available X then sample_points_gpu X h num_samples w1
           else sample_points_cpu X h num_samples
                  (emit (LogWarning ''GPU Acceleration was requested but CUDA is not available. Falling back to CPU processing.'') w1))"

text \<open>\<open>PointSampler.sample_points\<close>: the device is queried only when \<open>use_gpu\<close> holds
  (\<open>and\<close> evaluates its second operand only then).\<close>

definition point_sampler_sample_points ::
  "'g externals \<Rightarrow> mesh \<Rightarrow> int \<Rightarrow> bool \<Rightarrow> int \<Rightarrow> 'g world \<Rightarrow> error + (vec3 list \<times> 'g world)" where
  "point_sampler_sample_points X m num_samples use_gpu num_threads w =
     (if use_gpu
      then (let w1 = emit CudaIsAvailable w
            in if cuda_is_available X then sample_points_on_gpu X m num_samples w1
               else sample_points_on_cpu X m num_samples num_threads w1)
      else sample_points_on_cpu X m num_samples num_threads w)"

section \<open>Validation of the command line\<close>

record args =
  arg_max_resolution :: int
  arg_num_samples :: int
  arg_num_threads :: int
  arg_chunk_size :: int

definition validate_arguments :: "args \<Rightarrow> error + unit" where
  "validate_arguments a =
     (if arg_max_resolution a \<le> 0
      then Inl (ValueError ''Maximum resolution must be a positive integer.'')
      else if arg_num_samples a \<le> 0
      then Inl (ValueError ''Number of samples must be a positive integer.'')
      else if arg_num_threads a < 1
      then Inl (ValueError ''Number of threads must be at least 1.'')
      else if arg_chunk_size a \<le> 0
      then Inl (ValueError ''Chunk size must be a positive integer.'')
      else Inr ())"

section \<open>Properties of the chunk stream, stated\<close>

text \<open>What the specification asks of the chunks \<open>cks\<close> streamed from a sequence \<open>xs\<close>
  with chunk size \<open>cs\<close>: their number is \<open>\<lceil>N / cs\<rceil>\<close>, every chunk but the last has
  exactly \<open>cs\<close> elements, no chunk is empty or longer than \<open>cs\<close>, and the chunks put
  together are the sequence.\<close>

definition is_chunking :: "int \<Rightarrow> 'a list \<Rightarrow> 'a list list \<Rightarrow> bool" where
  "is_chunking cs xs cks \<longleftrightarrow>
     int (length cks) = \<lceil>real (length xs) / real_of_int cs\<rceil> \<and>
     (\<forall>c \<in> set (butlast cks). int (length c) = cs) \<and>
     (\<forall>c \<in> set cks. 0 < length c \<and> int (length c) \<le> cs) \<and>
     concat cks = xs"

section \<open>Fixtures\<close>

text \<open>A tetrahedron, used to run the definitions on a concrete mesh.\<close>

definition tetra :: mesh where
  "tetra = \<lparr>vertices = [(0, 0, 0), (1, 0, 0), (0, 1, 0), (0, 0, 1)],
            faces = [(0, 1, 2), (0, 1, 3), (0, 2, 3), (1, 2, 3)]\<rparr>"

text \<open>The mesh with no vertex and no face.\<close>

definition empty_mesh :: mesh where
  "empty_mesh = \<lparr>vertices = [], faces = []\<rparr>"

text \<open>One triangle in the plane \<open>x = 1/10\<close>.\<close>

definition plane_mesh :: mesh where
  "plane_mesh = \<lparr>vertices = [(1 / 10, 0, 0), (1 / 10, 1, 0), (1 / 10, 0, 1)],
                 faces = [(0, 1, 2)]\<rparr>"

text \<open>External primitives with fixed draws, to run the samplers: every surface draw
  returns the first vertex of the mesh as many times as asked (with face index 0), every
  index draw returns index 0, every uniform draw returns one quarter, the device
  arithmetic is exact, and the generator state counts the calls. \<open>cuda\<close> is the answer of
  the device query.\<close>

definition fixed_draws :: "bool \<Rightarrow> nat externals" where
  "fixed_draws cuda =
     \<lparr>cuda_is_available = cuda,
      sample_surface_even =
        (\<lambda>g vs fs n. ((replicate (nat n) (case vs of [] \<Rightarrow> (0, 0, 0) | v # _ \<Rightarrow> v),
                        replicate (nat n) 0), Suc g)),
      mesh_sample = (\<lambda>g m n. (replicate (nat n) (case vertices m of [] \<Rightarrow> (0, 0, 0) | v # _ \<Rightarrow> v), Suc g)),
      multinomial = (\<lambda>g probs n. (replicate (nat n) 0, Suc g)),
      rand = (\<lambda>g n. (replicate (nat n) (1 / 4), Suc g)),
      float32 = (\<lambda>x. x)\<rparr>"

text \<open>Rounding to the nearest number with a significand of 24 bits, as single precision
  does inside its exponent range (no overflow, no subnormal numbers; a tie goes up).\<close>

definition round_float32 :: "real \<Rightarrow> real" where
  "round_float32 x =
     (if x = 0 then 0
      else let k = 23 - \<lfloor>log 2 \<bar>x\<bar>\<rfloor>
           in real_of_int (round (x * 2 powr real_of_int k)) / 2 powr real_of_int k)"

text \<open>External primitives of a device in single precision: every index draw returns
  index 0 and every uniform draw returns 0, so that each sampled point is the first
  vertex of the first face, as the device holds it.\<close>

definition single_precision_draws :: "nat externals" where
  "single_precision_draws =
     \<lparr>cuda_is_available = True,
      sample_surface_even =
        (\<lambda>g vs fs n. ((replicate (nat n) (case vs of [] \<Rightarrow> (0, 0, 0) | v # _ \<Rightarrow> v),
                        replicate (nat n) 0), Suc g)),
      mesh_sample = (\<lambda>g m n. (replicate (nat n) (case vertices m of [] \<Rightarrow> (0, 0, 0) | v # _ \<Rightarrow> v), Suc g)),
      multinomial = (\<lambda>g probs n. (replicate (nat n) 0, Suc g)),
      rand = (\<lambda>g n. (replicate (nat n) 0, Suc g)),
      float32 = round_float32\<rparr>"

section \<open>Counting what a trace asks for\<close>

text \<open>The number of points an event asks an external sampler to draw on the CPU.\<close>

fun requested :: "event \<Rightarrow> int" where
  "requested (SampleSurfaceEven fs n) = n"
| "requested (Submit n) = n"
| "requested _ = 0"


section \<open>Points inside a box, stated\<close>

text \<open>A point lies in the box with corners \<open>lo\<close> and \<open>hi\<close> when each of its coordinates is
  between the two bounds of that axis.\<close>

definition bounded_below :: "ext3 \<Rightarrow> vec3 \<Rightarrow> bool" where
  "bounded_below lo p =
     (case (lo, p) of ((lx, ly, lz), (x, y, z)) \<Rightarrow>
        ext_le lx (Fin x) \<and> ext_le ly (Fin y) \<and> ext_le lz (Fin z))"

definition bounded_above :: "ext3 \<Rightarrow> vec3 \<Rightarrow> bool" where
  "bounded_above hi p =
     (case (hi, p) of ((hx, hy, hz), (x, y, z)) \<Rightarrow>
        ext_le (Fin x) hx \<and> ext_le (Fin y) hy \<and> ext_le (Fin z) hz)"

definition in_box :: "ext3 \<Rightarrow> ext3 \<Rightarrow> vec3 \<Rightarrow> bool" where
  "in_box lo hi p \<longleftrightarrow> bounded_below lo p \<and> bounded_above hi p"

text \<open>A sample point of a face is a convex combination of the three vertices of the
  face: weights that are not negative and add up to 1.\<close>

definition combination :: "real \<Rightarrow> real \<Rightarrow> real \<Rightarrow> vec3 \<Rightarrow> vec3 \<Rightarrow> vec3 \<Rightarrow> vec3" where
  "combination u v w a b c =
     (case (a, b, c) of ((ax, ay, az), (bx, by, bz), (cx, cy, cz)) \<Rightarrow>
        (u * ax + v * bx + w * cx, u * ay + v * by + w * cy, u * az + v * bz + w * cz))"

definition convex_combination_of_face :: "vec3 list \<Rightarrow> face \<Rightarrow> vec3 \<Rightarrow> bool" where
  "convex_combination_of_face vs f p \<longleftrightarrow>
     (\<exists>u v w a b c.
        u + v + w = 1 \<and> 0 \<le> u \<and> 0 \<le> v \<and> 0 \<le> w \<and>
        (case f of (i, j, k) \<Rightarrow>
           py_index vs i = Inr a \<and> py_index vs j = Inr b \<and> py_index vs k = Inr c) \<and>
        p = combination u v w a b c)"

section \<open>The chunk stream\<close>

lemma py_slice_chunk:
  assumes "0 \<le> i" "0 < cs"
  shows "py_slice xs i (i + cs) = take (nat cs) (drop (nat i) xs)"
proof -
  let ?n = "int (length xs)"
  show ?thesis
  proof (cases "i + cs \<le> ?n")
    case True
    then have "py_slice xs i (i + cs) = take (nat (i + cs - i)) (drop (nat i) xs)"
      using assms by (simp add: py_slice_def Let_def min_def)
    then show ?thesis by simp
  next
    case False
    show ?thesis
    proof (cases "i \<le> ?n")
      case True
      then have "py_slice xs i (i + cs) = take (nat (?n - i)) (drop (nat i) xs)"
        using assms False by (simp add: py_slice_def Let_def min_def)
      moreover have "length (drop (nat i) xs) = nat (?n - i)" using assms by simp
      moreover have "nat (?n - i) \<le> nat cs" using False by linarith
      ultimately show ?thesis by simp
    next
      case F2: False
      then have "drop (nat i) xs = []" by simp
      then show ?thesis using assms by (simp add: py_slice_def Let_def)
    qed
  qed
qed

lemma range_up_ge: "j \<in> set (range_up i n cs) \<Longrightarrow> i \<le> j \<and> j < n"
proof (induction i n cs rule: range_up.induct)
  case (1 i stop step)
  then show ?case by (subst (asm) (2) range_up.simps) (auto split: if_splits)
qed

lemma range_up_unfold: "0 < cs \<Longrightarrow> i < n \<Longrightarrow> range_up i n cs = i # range_up (i + cs) n cs"
  by (subst range_up.simps) simp

lemma range_up_empty: "\<not> (0 < cs \<and> i < n) \<Longrightarrow> range_up i n cs = []"
  by (subst range_up.simps) simp

lemma range_up_butlast: "j \<in> set (butlast (range_up i n cs)) \<Longrightarrow> j + cs < n"
proof (induction i n cs rule: range_up.induct)
  case (1 i stop step)
  show ?case
  proof (cases "0 < step \<and> i < stop")
    case True
    then have eq: "range_up i stop step = i # range_up (i + step) stop step"
      by (simp add: range_up_unfold)
    show ?thesis
    proof (cases "i + step < stop")
      case False
      then have "range_up (i + step) stop step = []" by (simp add: range_up_empty)
      with eq 1(2) show ?thesis by simp
    next
      case T2: True
      then have ne: "range_up (i + step) stop step \<noteq> []" using True by (simp add: range_up_unfold)
      from 1(2) eq ne have "j = i \<or> j \<in> set (butlast (range_up (i + step) stop step))" by simp
      then show ?thesis using T2 1(1) True by auto
    qed
  next
    case False
    then have "range_up i stop step = []" by (simp add: range_up_empty)
    with 1(2) show ?thesis by simp
  qed
qed

lemma concat_chunks:
  "0 < cs \<Longrightarrow> 0 \<le> i \<Longrightarrow>
   concat (map (\<lambda>j. py_slice xs j (j + cs)) (range_up i (int (length xs)) cs)) = drop (nat i) xs"
proof (induction i "int (length xs)" cs rule: range_up.induct)
  case (1 i step)
  show ?case
  proof (cases "i < int (length xs)")
    case True
    then have eq: "range_up i (int (length xs)) step = i # range_up (i + step) (int (length xs)) step"
      using 1(2) by (simp add: range_up_unfold)
    have "concat (map (\<lambda>j. py_slice xs j (j + step)) (range_up (i + step) (int (length xs)) step)) = drop (nat (i + step)) xs"
      using 1 True by simp
    moreover have "nat (i + step) = nat step + nat i" using 1 by (simp add: nat_add_distrib)
    moreover have "take (nat step) (drop (nat i) xs) @ drop (nat step + nat i) xs = drop (nat i) xs"
      by (metis append_take_drop_id drop_drop)
    ultimately show ?thesis using eq 1(2,3) by (simp add: py_slice_chunk)
  next
    case False
    then have "range_up i (int (length xs)) step = []" by (simp add: range_up_empty)
    with False 1 show ?thesis by simp
  qed
qed

lemma ceil_div_step: "0 < (cs::int) \<Longrightarrow> (a + cs + cs - 1) div cs = (a + cs - 1) div cs + 1"
proof -
  assume "0 < cs"
  have e: "a + cs + cs - 1 = (a + cs - 1) + cs" by simp
  show ?thesis unfolding e using \<open>0 < cs\<close> div_add_self2[of cs "a + cs - 1"] by simp
qed

lemma ceil_div_one: "0 < (a::int) \<Longrightarrow> a \<le> cs \<Longrightarrow> (a + cs - 1) div cs = 1"
proof -
  assume a: "0 < a" "a \<le> cs"
  have e: "a + cs - 1 = (a - 1) + cs" by simp
  have "(a - 1) div cs = 0" using a by (simp add: div_pos_pos_trivial)
  then show ?thesis unfolding e using a div_add_self2[of cs "a - 1"] by simp
qed


lemma range_up_length:
  "0 < cs \<Longrightarrow> int (length (range_up i n cs)) = (if i < n then (n - i + cs - 1) div cs else 0)"
proof (induction i n cs rule: range_up.induct)
  case (1 i stop step)
  show ?case
  proof (cases "i < stop")
    case True
    then have eq: "range_up i stop step = i # range_up (i + step) stop step"
      using 1(2) by (simp add: range_up_unfold)
    have ih: "int (length (range_up (i + step) stop step)) =
        (if i + step < stop then (stop - (i + step) + step - 1) div step else 0)"
      using 1 True by simp
    show ?thesis
    proof (cases "i + step < stop")
      case T2: True
      have "(stop - i + step - 1) div step = ((stop - (i + step)) + step + step - 1) div step"
        by (simp add: algebra_simps)
      also have "\<dots> = (stop - (i + step) + step - 1) div step + 1"
        using 1(2) by (rule ceil_div_step)
      finally show ?thesis using eq ih T2 True by simp
    next
      case False
      then have "(stop - i + step - 1) div step = 1"
        using True by (intro ceil_div_one) auto
      then show ?thesis using eq ih False True by simp
    qed
  next
    case False
    then have "range_up i stop step = []" by (simp add: range_up_empty)
    with False show ?thesis by simp
  qed
qed

lemma ceiling_div:
  assumes "0 < (cs::int)"
  shows "\<lceil>real_of_int a / real_of_int cs\<rceil> = (a + cs - 1) div cs"
proof -
  define q where "q = (a + cs - 1) div cs"
  define r where "r = (a + cs - 1) mod cs"
  have d: "a + cs - 1 = q * cs + r" by (simp add: q_def r_def)
  have r: "0 \<le> r" "r < cs" using assms by (simp_all add: r_def)
  have u: "a \<le> q * cs" using d r by linarith
  have l: "(q - 1) * cs < a" using d r by (simp add: algebra_simps)
  have "real_of_int a \<le> real_of_int (q * cs)" using u by linarith
  then have up: "real_of_int a / real_of_int cs \<le> real_of_int q"
    using assms by (simp add: field_simps)
  have "real_of_int ((q - 1) * cs) < real_of_int a" using l by linarith
  then have lo: "real_of_int q - 1 < real_of_int a / real_of_int cs"
    using assms by (simp add: field_simps)
  show ?thesis unfolding q_def[symmetric] using up lo by (intro ceiling_unique) auto
qed

lemma length_chunk:
  assumes "0 < cs" "0 \<le> j"
  shows "int (length (py_slice xs j (j + cs))) = min cs (max 0 (int (length xs) - j))"
  using assms by (simp add: py_slice_chunk)

lemma chunks_is_chunking:
  assumes "0 < cs"
  shows "is_chunking cs xs (map (\<lambda>j. py_slice xs j (j + cs)) (range_up 0 (int (length xs)) cs))"
proof -
  let ?n = "int (length xs)"
  let ?is = "range_up 0 ?n cs"
  let ?f = "\<lambda>j. py_slice xs j (j + cs)"
  have cnt: "int (length (map ?f ?is)) = \<lceil>real (length xs) / real_of_int cs\<rceil>"
  proof (cases "xs = []")
    case True
    then show ?thesis by (simp add: range_up_empty)
  next
    case False
    then have "int (length ?is) = (?n + cs - 1) div cs"
      using assms by (simp add: range_up_length)
    also have "\<dots> = \<lceil>real_of_int ?n / real_of_int cs\<rceil>"
      using assms ceiling_div[of cs ?n] by simp
    finally show ?thesis by simp
  qed
  have full: "\<forall>c \<in> set (butlast (map ?f ?is)). int (length c) = cs"
  proof
    fix c assume "c \<in> set (butlast (map ?f ?is))"
    then obtain j where j: "j \<in> set (butlast ?is)" "c = ?f j"
      by (auto simp: map_butlast[symmetric])
    from j(1) have "j + cs < ?n" by (rule range_up_butlast)
    moreover from j(1) have "0 \<le> j" using range_up_ge[of j 0 ?n cs] by (auto dest: in_set_butlastD)
    ultimately show "int (length c) = cs" using assms j(2) by (simp add: length_chunk)
  qed
  have each: "\<forall>c \<in> set (map ?f ?is). 0 < length c \<and> int (length c) \<le> cs"
  proof
    fix c assume "c \<in> set (map ?f ?is)"
    then obtain j where j: "j \<in> set ?is" "c = ?f j" by auto
    from j(1) have "0 \<le> j \<and> j < ?n" by (rule range_up_ge)
    then have "int (length c) = min cs (?n - j)" "0 < ?n - j"
      using assms j(2) by (simp_all add: length_chunk)
    then show "0 < length c \<and> int (length c) \<le> cs" using assms by linarith
  qed
  have "concat (map ?f ?is) = xs" using assms concat_chunks[of cs 0 xs] by simp
  with cnt full each show ?thesis unfolding is_chunking_def by blast
qed

lemma stream_vertices_loaded:
  "0 < cs \<Longrightarrow> stream_vertices (load_model_info (init fp cs) sc m) =
     Inr (map (\<lambda>j. py_slice (vertices m) j (j + cs)) (range_up 0 (int (length (vertices m))) cs))"
  by (simp add: stream_vertices_def load_model_info_def init_def py_range_def split: list.splits)

lemma stream_faces_loaded:
  "0 < cs \<Longrightarrow> stream_faces (load_model_info (init fp cs) sc m) =
     Inr (map (\<lambda>j. py_slice (faces m) j (j + cs)) (range_up 0 (int (length (faces m))) cs))"
  by (simp add: stream_faces_def load_model_info_def init_def py_range_def split: list.splits)

text \<open>
  Claim C2. On a loaded handler with a positive chunk size, the vertex stream and the face
  stream each yield \<open>\<lceil>N / chunk_size\<rceil>\<close> chunks, all of exactly \<open>chunk_size\<close> elements
  except possibly the last, which is shorter but not empty, and the chunks concatenated
  are the original sequence: every index is covered once, in order.
\<close>

theorem stream_chunks_partition:
  assumes "0 < cs"
  shows "(\<exists>vcs. stream_vertices (load_model_info (init fp cs) sc m) = Inr vcs \<and>
              is_chunking cs (vertices m) vcs) \<and>
         (\<exists>fcs. stream_faces (load_model_info (init fp cs) sc m) = Inr fcs \<and>
              is_chunking cs (faces m) fcs)"
  using assms by (simp add: stream_vertices_loaded stream_faces_loaded chunks_is_chunking)


theorem stream_chunks_partition_witness:
  "(0::int) < 3 \<and>
   (\<exists>vcs. stream_vertices (load_model_info (init ''tetra.obj'' 3) False tetra) = Inr vcs \<and>
          is_chunking 3 (vertices tetra) vcs) \<and>
   (\<exists>fcs. stream_faces (load_model_info (init ''tetra.obj'' 3) False tetra) = Inr fcs \<and>
          is_chunking 3 (faces tetra) fcs)"
  using stream_chunks_partition[of 3 "''tetra.obj''" False tetra] by simp

section \<open>The bounding box\<close>

lemma ext_min_assoc: "ext_min (ext_min a b) c = ext_min a (ext_min b c)"
  by (cases a; cases b; cases c) (auto simp: ext_min_def)

lemma ext_max_assoc: "ext_max (ext_max a b) c = ext_max a (ext_max b c)"
  by (cases a; cases b; cases c) (auto simp: ext_max_def)

lemma ext_min_Fin: "ext_min (Fin a) (Fin b) = Fin (min a b)"
  by (auto simp: ext_min_def)

lemma ext_max_Fin: "ext_max (Fin a) (Fin b) = Fin (max a b)"
  by (auto simp: ext_max_def)

lemma np_minimum_vmin: "np_minimum (np_minimum a b) c = np_minimum a (vmin b c)"
  by (cases a; cases b; cases c) (simp add: np_minimum_def vmin_def ext_min_assoc ext_min_Fin)

lemma np_maximum_vmax: "np_maximum (np_maximum a b) c = np_maximum a (vmax b c)"
  by (cases a; cases b; cases c) (simp add: np_maximum_def vmax_def ext_max_assoc ext_max_Fin)

lemma np_minimum_foldl: "np_minimum a (foldl vmin v vs) = foldl np_minimum a (v # vs)"
  by (induction vs arbitrary: a v rule: rev_induct) (simp_all add: np_minimum_vmin[symmetric])

lemma np_maximum_foldl: "np_maximum a (foldl vmax v vs) = foldl np_maximum a (v # vs)"
  by (induction vs arbitrary: a v rule: rev_induct) (simp_all add: np_maximum_vmax[symmetric])

lemma bounding_box_loop_fold:
  "\<forall>c \<in> set chunks. c \<noteq> [] \<Longrightarrow>
   bounding_box_loop chunks mn mx =
     Inr (foldl np_minimum mn (concat chunks), foldl np_maximum mx (concat chunks))"
proof (induction chunks arbitrary: mn mx)
  case Nil
  then show ?case by simp
next
  case (Cons c chunks)
  then obtain v vs where c: "c = v # vs" by (cases c) auto
  have "bounding_box_loop (c # chunks) mn mx =
      bounding_box_loop chunks (np_minimum mn (foldl vmin v vs)) (np_maximum mx (foldl vmax v vs))"
    by (simp add: c np_min_axis0_def np_max_axis0_def)
  also have "\<dots> = Inr (foldl np_minimum (foldl np_minimum mn (v # vs)) (concat chunks),
                        foldl np_maximum (foldl np_maximum mx (v # vs)) (concat chunks))"
    using Cons by (simp add: np_minimum_foldl np_maximum_foldl)
  finally show ?case by (simp add: c)
qed

lemma calculate_bounding_box_loaded:
  assumes "0 < cs"
  shows "calculate_bounding_box (load_model_info (init fp cs) sc m) =
     Inr (foldl np_minimum (PInf, PInf, PInf) (vertices m),
          foldl np_maximum (MInf, MInf, MInf) (vertices m))"
proof -
  let ?cks = "map (\<lambda>j. py_slice (vertices m) j (j + cs)) (range_up 0 (int (length (vertices m))) cs)"
  have ck: "is_chunking cs (vertices m) ?cks" using assms by (rule chunks_is_chunking)
  then have "\<forall>c \<in> set ?cks. c \<noteq> []" "concat ?cks = vertices m"
    unfolding is_chunking_def by auto
  then show ?thesis
    using assms bounding_box_loop_fold[of ?cks]
    by (simp add: calculate_bounding_box_def stream_vertices_loaded)
qed

text \<open>
  Claim C4. The bounding box of a loaded handler is the same for every positive chunk
  size: the computation returns, and returns the same pair of extrema, for any two
  positive chunk sizes, so in particular for chunk size 1 and chunk size
  \<open>total_vertices\<close> of a mesh with at least one vertex. Coordinates are real numbers
  here, so equal means equal as values.
\<close>

theorem bounding_box_chunk_size_invariant:
  assumes "0 < cs1" "0 < cs2"
  shows "\<exists>box. calculate_bounding_box (load_model_info (init fp cs1) sc m) = Inr box \<and>
               calculate_bounding_box (load_model_info (init fp cs2) sc m) = Inr box"
  using calculate_bounding_box_loaded[OF assms(1), of fp sc m]
    calculate_bounding_box_loaded[OF assms(2), of fp sc m] by blast

theorem bounding_box_chunk_size_invariant_witness:
  "(0::int) < 1 \<and> (0::int) < 4 \<and>
   (\<exists>box. calculate_bounding_box (load_model_info (init ''tetra.obj'' 1) False tetra) = Inr box \<and>
          calculate_bounding_box (load_model_info (init ''tetra.obj'' 4) False tetra) = Inr box)"
  using bounding_box_chunk_size_invariant[of 1 4 "''tetra.obj''" False tetra] by simp

section \<open>Degenerate chunk sizes and meshes\<close>

lemma range_down_empty: "\<not> (step < 0 \<and> stop < i) \<Longrightarrow> range_down i stop step = []"
  by (subst range_down.simps) simp

lemma stream_vertices_zero:
  "stream_vertices (load_model_info (init fp 0) sc m) = Inl (ValueError ''range() arg 3 must not be zero'')"
  by (simp add: stream_vertices_def load_model_info_def init_def py_range_def)

lemma stream_faces_zero:
  "stream_faces (load_model_info (init fp 0) sc m) = Inl (ValueError ''range() arg 3 must not be zero'')"
  by (simp add: stream_faces_def load_model_info_def init_def py_range_def)

lemma stream_vertices_negative:
  "cs < 0 \<Longrightarrow> stream_vertices (load_model_info (init fp cs) sc m) = Inr []"
  by (simp add: stream_vertices_def load_model_info_def init_def py_range_def range_down_empty)

lemma stream_faces_negative:
  "cs < 0 \<Longrightarrow> stream_faces (load_model_info (init fp cs) sc m) = Inr []"
  by (simp add: stream_faces_def load_model_info_def init_def py_range_def range_down_empty)

lemma total_faces_loaded [simp]:
  "total_faces (load_model_info (init fp cs) sc m) = int (length (faces m))"
  "total_vertices (load_model_info (init fp cs) sc m) = int (length (vertices m))"
  "concatenated_mesh (load_model_info (init fp cs) sc m) = Some m"
  "chunk_size (load_model_info (init fp cs) sc m) = cs"
  by (simp_all add: load_model_info_def init_def)

text \<open>
  Claim C8, as amended. With chunk size 0 the two streams fail (the range refuses a zero
  step), and so do the bounding box and, on a mesh with a face, the chunked CPU sampler.
  With a negative chunk size nothing fails: the streams yield no chunk and the bounding
  box is the pair of initial extrema. The validation of the command line refuses every
  chunk size that is zero or negative with a \<open>ValueError\<close>.
\<close>

theorem zero_chunk_fails_negative_chunk_streams_nothing:
  assumes "cs < 0" and "arg_chunk_size a \<le> 0" and "faces m \<noteq> []"
  shows "stream_vertices (load_model_info (init fp 0) sc m) = Inl (ValueError ''range() arg 3 must not be zero'') \<and>
         stream_faces (load_model_info (init fp 0) sc m) = Inl (ValueError ''range() arg 3 must not be zero'') \<and>
         calculate_bounding_box (load_model_info (init fp 0) sc m) = Inl (ValueError ''range() arg 3 must not be zero'') \<and>
         sample_points_cpu X (load_model_info (init fp 0) sc m) n w = Inl (ValueError ''range() arg 3 must not be zero'') \<and>
         stream_vertices (load_model_info (init fp cs) sc m) = Inr [] \<and>
         stream_faces (load_model_info (init fp cs) sc m) = Inr [] \<and>
         calculate_bounding_box (load_model_info (init fp cs) sc m) = Inr ((PInf, PInf, PInf), (MInf, MInf, MInf)) \<and>
         (\<exists>msg. validate_arguments a = Inl (ValueError msg))"
proof -
  have "sample_points_cpu X (load_model_info (init fp 0) sc m) n w = Inl (ValueError ''range() arg 3 must not be zero'')"
    using assms(3)
    by (simp add: sample_points_cpu_def sample_points_cpu_draws_def stream_faces_zero Let_def)
  moreover have "\<exists>msg. validate_arguments a = Inl (ValueError msg)"
    using assms(2) by (simp add: validate_arguments_def)
  ultimately show ?thesis
    using assms(1)
    by (simp add: stream_vertices_zero stream_faces_zero stream_vertices_negative
        stream_faces_negative calculate_bounding_box_def)
qed

theorem zero_chunk_fails_negative_chunk_streams_nothing_witness:
  "stream_vertices (load_model_info (init ''tetra.obj'' (- 1)) False tetra) = Inr [] \<and>
   calculate_bounding_box (load_model_info (init ''tetra.obj'' 0) False tetra) = Inl (ValueError ''range() arg 3 must not be zero'') \<and>
   (\<exists>msg. validate_arguments \<lparr>arg_max_resolution = 256, arg_num_samples = 10000,
        arg_num_threads = 4, arg_chunk_size = 0\<rparr> = Inl (ValueError msg))"
  using zero_chunk_fails_negative_chunk_streams_nothing[where cs = "- 1"
      and a = "\<lparr>arg_max_resolution = 256, arg_num_samples = 10000, arg_num_threads = 4, arg_chunk_size = 0\<rparr>"
      and m = tetra and fp = "''tetra.obj''" and sc = False and X = "fixed_draws False"
      and n = 5 and w = "(0, [])"]
  by (simp add: tetra_def)

text \<open>
  Claim C8 as stated fails: with chunk size \<open>-1\<close> the vertex stream of the tetrahedron
  yields no chunk and raises nothing, and the bounding box returns the initial extrema.
\<close>

theorem negative_chunk_size_streams_without_error:
  "stream_vertices (load_model_info (init ''tetra.obj'' (- 1)) False tetra) = Inr [] \<and>
   calculate_bounding_box (load_model_info (init ''tetra.obj'' (- 1)) False tetra) =
     Inr ((PInf, PInf, PInf), (MInf, MInf, MInf))"
  by (simp add: stream_vertices_negative calculate_bounding_box_def)

text \<open>
  Claim C5 as stated fails: on the mesh with no vertex the bounding box returns the
  initial extrema instead of failing.
\<close>

theorem empty_mesh_bounding_box_returns_infinities:
  "calculate_bounding_box (load_model_info (init ''empty.obj'' 1) False empty_mesh) =
     Inr ((PInf, PInf, PInf), (MInf, MInf, MInf))"
  by (simp add: calculate_bounding_box_def stream_vertices_def py_range_def empty_mesh_def range_up.simps)

text \<open>
  Claim C5, as amended. On a mesh with no vertex the bounding box does not fail, for any
  chunk size other than zero: it returns the initial extrema, plus infinity for the
  minimum and minus infinity for the maximum. On a mesh with no face the CPU sampler and
  the GPU sampler of the handler both fail, with the \<open>ZeroDivisionError\<close> of the division
  of \<open>num_samples\<close> by \<open>total_faces\<close>.
\<close>

theorem no_vertex_gives_infinities_no_face_divides_by_zero:
  assumes "vertices m = []" and "faces m' = []" and "cs \<noteq> 0"
  shows "calculate_bounding_box (load_model_info (init fp cs) sc m) =
           Inr ((PInf, PInf, PInf), (MInf, MInf, MInf)) \<and>
         sample_points_cpu X (load_model_info (init fp cs') sc' m') n w = Inl ZeroDivisionError \<and>
         sample_points_gpu X (load_model_info (init fp cs') sc' m') n w = Inl ZeroDivisionError"
proof -
  have "py_range 0 0 cs = Inr []"
    using assms(3) by (simp add: py_range_def range_up.simps range_down.simps)
  then have "calculate_bounding_box (load_model_info (init fp cs) sc m) =
           Inr ((PInf, PInf, PInf), (MInf, MInf, MInf))"
    using assms(1) by (simp add: calculate_bounding_box_def stream_vertices_def)
  then show ?thesis
    using assms(2)
    by (simp add: sample_points_cpu_def sample_points_cpu_draws_def sample_points_gpu_def)
qed

theorem no_vertex_gives_infinities_no_face_divides_by_zero_witness:
  "calculate_bounding_box (load_model_info (init ''empty.obj'' 1000000) False empty_mesh) =
           Inr ((PInf, PInf, PInf), (MInf, MInf, MInf)) \<and>
   sample_points_cpu (fixed_draws True) (load_model_info (init ''empty.obj'' 1000000) False empty_mesh) 10 (0, []) = Inl ZeroDivisionError \<and>
   sample_points_gpu (fixed_draws True) (load_model_info (init ''empty.obj'' 1000000) False empty_mesh) 10 (0, []) = Inl ZeroDivisionError"
  using no_vertex_gives_infinities_no_face_divides_by_zero[where m = empty_mesh and m' = empty_mesh
      and cs = 1000000 and cs' = 1000000 and fp = "''empty.obj''" and sc = False and sc' = False
      and X = "fixed_draws True" and n = 10 and w = "(0, [])"]
  by (simp add: empty_mesh_def)

section \<open>The chunked and the thread-pool sampler on the CPU\<close>

lemma cpu_chunk_loop_trace:
  "cpu_chunk_loop X vs spf chunks samples w = (samples', w') \<Longrightarrow>
   snd w' = snd w @ map (\<lambda>c. SampleSurfaceEven c (spf * int (length c))) chunks \<and>
   length samples' = length samples + length chunks"
proof (induction chunks arbitrary: samples w)
  case Nil
  then show ?case by simp
next
  case (Cons c chunks)
  obtain drawn w1 where c1: "call_sample_surface_even X vs c (spf * int (length c)) w = (drawn, w1)"
    by (cases "call_sample_surface_even X vs c (spf * int (length c)) w")
  then have w1: "snd w1 = snd w @ [SampleSurfaceEven c (spf * int (length c))]"
    by (auto simp: call_sample_surface_even_def split: prod.splits)
  from Cons.prems c1 have "cpu_chunk_loop X vs spf chunks (samples @ [drawn]) w1 = (samples', w')"
    by simp
  from Cons.IH[OF this] w1 show ?case by simp
qed

lemma sum_requested_chunks:
  "sum_list (map requested (map (\<lambda>c. SampleSurfaceEven c (spf * int (length c))) chunks)) =
   spf * int (length (concat chunks))"
  by (induction chunks) (simp_all add: algebra_simps)

text \<open>
  The draws of the chunked sampler on a loaded handler: one for every chunk, of
  \<open>(num_samples div total_faces) * len(chunk)\<close> points, and one for the remainder when it
  is positive; the counts asked for add up to \<open>num_samples\<close>.
\<close>

lemma sample_points_cpu_draws_loaded:
  assumes faces: "faces m \<noteq> []" and cs: "0 < cs"
  shows "\<exists>samples g' chunks.
           stream_faces (load_model_info (init fp cs) sc m) = Inr chunks \<and> chunks \<noteq> [] \<and>
           sample_points_cpu_draws X (load_model_info (init fp cs) sc m) num_samples (g, []) =
             Inr (samples, (g',
               map (\<lambda>c. SampleSurfaceEven c
                          (num_samples div int (length (faces m)) * int (length c))) chunks @
               (if 0 < num_samples mod int (length (faces m))
                then [SampleSurfaceEven (faces m) (num_samples mod int (length (faces m)))]
                else []))) \<and>
           samples \<noteq> [] \<and> concat chunks = faces m"
proof -
  let ?H = "load_model_info (init fp cs) sc m"
  let ?N = "int (length (faces m))"
  let ?spf = "num_samples div ?N"
  let ?rem = "num_samples mod ?N"
  let ?chunks = "map (\<lambda>j. py_slice (faces m) j (j + cs)) (range_up 0 ?N cs)"
  have N: "0 < ?N" using faces by simp
  have st: "stream_faces ?H = Inr ?chunks" using cs by (rule stream_faces_loaded)
  have "is_chunking cs (faces m) ?chunks" using cs by (rule chunks_is_chunking)
  then have cc: "concat ?chunks = faces m" by (simp add: is_chunking_def)
  with faces have ne: "?chunks \<noteq> []" by auto
  obtain samples w1 where loop: "cpu_chunk_loop X (vertices m) ?spf ?chunks [] (g, []) = (samples, w1)"
    by (cases "cpu_chunk_loop X (vertices m) ?spf ?chunks [] (g, [])")
  from cpu_chunk_loop_trace[OF loop]
  have tr1: "snd w1 = map (\<lambda>c. SampleSurfaceEven c (?spf * int (length c))) ?chunks"
    and ls: "length samples = length ?chunks" by simp_all
  have sne: "samples \<noteq> []" using ls ne by auto
  show ?thesis
  proof (cases "0 < ?rem")
    case True
    obtain extra w2 where ex: "call_sample_surface_even X (vertices m) (faces m) ?rem w1 = (extra, w2)"
      by (cases "call_sample_surface_even X (vertices m) (faces m) ?rem w1")
    then have tr2: "snd w2 = snd w1 @ [SampleSurfaceEven (faces m) ?rem]"
      by (auto simp: call_sample_surface_even_def split: prod.splits)
    have "sample_points_cpu_draws X ?H num_samples (g, []) = Inr (samples @ [extra], w2)"
      using True N st loop ex by (simp add: sample_points_cpu_draws_def Let_def)
    then have "sample_points_cpu_draws X ?H num_samples (g, []) =
        Inr (samples @ [extra], (fst w2,
          map (\<lambda>c. SampleSurfaceEven c (?spf * int (length c))) ?chunks @
          (if 0 < ?rem then [SampleSurfaceEven (faces m) ?rem] else [])))"
      using tr1 tr2 True by (cases w2) simp
    with st ne cc show ?thesis by blast
  next
    case False
    have "sample_points_cpu_draws X ?H num_samples (g, []) = Inr (samples, w1)"
      using False N st loop by (simp add: sample_points_cpu_draws_def Let_def)
    then have "sample_points_cpu_draws X ?H num_samples (g, []) =
        Inr (samples, (fst w1,
          map (\<lambda>c. SampleSurfaceEven c (?spf * int (length c))) ?chunks @
          (if 0 < ?rem then [SampleSurfaceEven (faces m) ?rem] else [])))"
      using tr1 False by (cases w1) simp
    with st ne cc sne show ?thesis by blast
  qed
qed

lemma sample_points_cpu_draws_requested:
  assumes "faces m \<noteq> []" and "0 < cs"
  shows "\<exists>samples g' tr.
           sample_points_cpu_draws X (load_model_info (init fp cs) sc m) num_samples (g, []) =
             Inr (samples, (g', tr)) \<and>
           sum_list (map requested tr) = num_samples"
proof -
  let ?N = "int (length (faces m))"
  from sample_points_cpu_draws_loaded[OF assms, of fp sc X num_samples g]
  obtain samples g' chunks where
    d: "sample_points_cpu_draws X (load_model_info (init fp cs) sc m) num_samples (g, []) =
             Inr (samples, (g',
               map (\<lambda>c. SampleSurfaceEven c (num_samples div ?N * int (length c))) chunks @
               (if 0 < num_samples mod ?N then [SampleSurfaceEven (faces m) (num_samples mod ?N)]
                else [])))"
    and cc: "concat chunks = faces m" by blast
  have N: "0 < ?N" using assms(1) by simp
  have "sum_list (map requested
          (map (\<lambda>c. SampleSurfaceEven c (num_samples div ?N * int (length c))) chunks @
           (if 0 < num_samples mod ?N then [SampleSurfaceEven (faces m) (num_samples mod ?N)]
            else []))) = num_samples div ?N * ?N + num_samples mod ?N"
  proof (cases "0 < num_samples mod ?N")
    case True
    then show ?thesis using sum_requested_chunks[of "num_samples div ?N" chunks] cc by simp
  next
    case False
    then have "num_samples mod ?N = 0" using N by (smt (verit) pos_mod_sign)
    then show ?thesis using sum_requested_chunks[of "num_samples div ?N" chunks] cc False by simp
  qed
  then show ?thesis using d by auto
qed

text \<open>
  The chunked sampler never returns: what it hands to \<open>np.vstack\<close> is either nothing or
  a list of pairs.
\<close>

lemma sample_points_cpu_never_returns: "\<exists>e. sample_points_cpu X h num_samples w = Inl e"
  by (auto simp: sample_points_cpu_def np_vstack_pairs_def split: sum.splits)

lemma sample_points_cpu_loaded_raises:
  assumes "faces m \<noteq> []" and "0 < cs"
  shows "sample_points_cpu X (load_model_info (init fp cs) sc m) num_samples (g, []) =
           Inl (ValueError ''setting an array element with a sequence.'')"
  using sample_points_cpu_draws_loaded[OF assms, of fp sc X num_samples g]
  by (auto simp: sample_points_cpu_def np_vstack_pairs_def)

lemma run_tasks_trace:
  "run_tasks X m ns w = (results, w') \<Longrightarrow>
   snd w' = snd w @ map Submit ns \<and> length results = length ns"
proof (induction ns arbitrary: w results w')
  case Nil
  then show ?case by simp
next
  case (Cons k ns)
  obtain pts w1 where c1: "call_mesh_sample X m k w = (pts, w1)"
    by (cases "call_mesh_sample X m k w")
  obtain rest w2 where r: "run_tasks X m ns w1 = (rest, w2)"
    by (cases "run_tasks X m ns w1")
  have w1: "snd w1 = snd w @ [Submit k]"
    using c1 by (auto simp: call_mesh_sample_def split: prod.splits)
  from Cons.prems c1 r have "results = pts # rest" "w' = w2" by simp_all
  with Cons.IH[OF r] w1 show ?case by simp
qed

lemma run_tasks_length:
  assumes "\<forall>g m n. 0 \<le> n \<longrightarrow> length (fst (mesh_sample X g m n)) = nat n"
  shows "run_tasks X m ns w = (results, w') \<Longrightarrow> \<forall>k \<in> set ns. 0 \<le> k \<Longrightarrow>
   int (length (concat results)) = sum_list ns"
proof (induction ns arbitrary: w results w')
  case Nil
  then show ?case by simp
next
  case (Cons k ns)
  obtain pts w1 where c1: "call_mesh_sample X m k w = (pts, w1)"
    by (cases "call_mesh_sample X m k w")
  obtain rest w2 where r: "run_tasks X m ns w1 = (rest, w2)"
    by (cases "run_tasks X m ns w1")
  have k: "0 \<le> k" using Cons.prems(2) by simp
  then have "length (fst (mesh_sample X (fst w) m k)) = nat k" using assms by blast
  then have len: "int (length pts) = k"
    using c1 k by (auto simp: call_mesh_sample_def split: prod.splits)
  from Cons.prems c1 r have "results = pts # rest" by simp
  with Cons.IH[OF r] Cons.prems(2) len show ?case by simp
qed

lemma sum_requested_submit: "sum_list (map (requested \<circ> Submit) ns) = sum_list ns"
  by (induction ns) simp_all

lemma sum_requested_pool:
  "tr = LogInfo # map Submit ns \<Longrightarrow>
   sum_list (map requested (snd (emit LogInfo (g, tr)))) = sum_list ns"
  by (simp add: emit_def sum_requested_submit)

lemma sample_points_on_cpu_count:
  assumes contract: "\<forall>g m n. 0 \<le> n \<longrightarrow> length (fst (mesh_sample X g m n)) = nat n"
    and n: "0 \<le> num_samples" and t: "0 < num_threads"
  shows "\<exists>pts g' tr. sample_points_on_cpu X m num_samples num_threads (g, []) = Inr (pts, (g', tr)) \<and>
           int (length pts) = num_samples \<and> sum_list (map requested tr) = num_samples"
proof -
  let ?spt = "num_samples div num_threads"
  let ?rem = "num_samples mod num_threads"
  let ?futures = "replicate (nat num_threads) ?spt @ (if 0 < ?rem then [?rem] else [])"
  have spt: "0 \<le> ?spt" using n t by (simp add: pos_imp_zdiv_nonneg_iff)
  have rem: "0 \<le> ?rem" using t by simp
  have split: "?spt * num_threads + ?rem = num_samples" by simp
  have total: "sum_list ?futures = num_samples"
  proof -
    have "sum_list (replicate (nat num_threads) ?spt) = int (nat num_threads) * ?spt"
      by (simp add: sum_list_replicate)
    then have r: "sum_list (replicate (nat num_threads) ?spt) = ?spt * num_threads"
      using t by (simp add: algebra_simps)
    show ?thesis
    proof (cases "0 < ?rem")
      case True
      then show ?thesis using r split by simp
    next
      case False
      then have "?rem = 0" using rem by linarith
      then show ?thesis using r split False by simp
    qed
  qed
  have nonneg: "\<forall>k \<in> set ?futures. 0 \<le> k" using spt rem by auto
  have fne: "?futures \<noteq> []" using t by auto
  obtain results w1 where run: "run_tasks X m ?futures (emit LogInfo (g, [])) = (results, w1)"
    by (cases "run_tasks X m ?futures (emit LogInfo (g, []))")
  from run_tasks_trace[OF run]
  have tr1: "snd w1 = LogInfo # map Submit ?futures" and lr: "length results = length ?futures"
    by (simp_all add: emit_def)
  from run_tasks_length[OF contract run nonneg] total
  have len: "int (length (concat results)) = num_samples" by simp
  have rne: "results \<noteq> []" using lr fne by auto
  have res: "sample_points_on_cpu X m num_samples num_threads (g, []) =
      Inr (concat results, emit LogInfo w1)"
    using t run rne by (simp add: sample_points_on_cpu_def Let_def np_vstack_def)
  have "sum_list (map requested (snd (emit LogInfo w1))) = sum_list ?futures"
    using sum_requested_pool[OF tr1, of "fst w1"] by simp
  then have "sum_list (map requested (snd (emit LogInfo w1))) = num_samples"
    using total by simp
  with res len show ?thesis by (cases "emit LogInfo w1") auto
qed

lemma fixed_draws_mesh_sample:
  "\<forall>g m n. 0 \<le> n \<longrightarrow> length (fst (mesh_sample (fixed_draws b) g m n)) = nat n"
  by (simp add: fixed_draws_def)

lemma tetra_fields:
  "vertices tetra = [(0, 0, 0), (1, 0, 0), (0, 1, 0), (0, 0, 1)]"
  "faces tetra = [(0, 1, 2), (0, 1, 3), (0, 2, 3), (1, 2, 3)]"
  by (simp_all add: tetra_def)

lemma tetra_stream_faces:
  "stream_faces (load_model_info (init ''tetra.obj'' 3) False tetra) =
     Inr [[(0, 1, 2), (0, 1, 3), (0, 2, 3)], [(1, 2, 3)]]"
  by (simp add: stream_faces_def py_range_def range_up.simps py_slice_def tetra_def)

text \<open>
  Claim C1 fails on the chunked sampler \<open>_sample_points_cpu\<close>. On the tetrahedron, with
  chunk size 3 and ten samples asked for, it makes the three draws the claim describes,
  of 6, 2 and 2 points, and then raises in \<open>np.vstack\<close>: each draw returned a pair of
  points and face indices, and the pair was appended whole. No point is returned. The
  thread-pool sampler does return exactly \<open>num_samples\<close> points, as
  \<open>sample_points_on_cpu_count\<close> shows for every positive number of threads.
\<close>

theorem chunked_cpu_sampler_raises_after_draws:
  "sample_points_cpu (fixed_draws False)
      (load_model_info (init ''tetra.obj'' 3) False tetra) 10 (0, []) =
     Inl (ValueError ''setting an array element with a sequence.'') \<and>
   map_sum id (\<lambda>r. snd (snd r))
     (sample_points_cpu_draws (fixed_draws False)
        (load_model_info (init ''tetra.obj'' 3) False tetra) 10 (0, [])) =
     Inr [SampleSurfaceEven [(0, 1, 2), (0, 1, 3), (0, 2, 3)] 6,
          SampleSurfaceEven [(1, 2, 3)] 2,
          SampleSurfaceEven [(0, 1, 2), (0, 1, 3), (0, 2, 3), (1, 2, 3)] 2]"
  by (simp add: sample_points_cpu_def sample_points_cpu_draws_def tetra_stream_faces
      tetra_fields call_sample_surface_even_def fixed_draws_def np_vstack_pairs_def)

section \<open>Sampling zero points\<close>

text \<open>
  Claim C7 as stated fails: asked for zero points with two threads, the thread-pool
  sampler returns no point but submits two worker tasks, each for zero points.
\<close>

theorem zero_samples_submits_worker_tasks:
  "sample_points_on_cpu (fixed_draws False) tetra 0 2 (0, []) =
     Inr ([], (2, [LogInfo, Submit 0, Submit 0, LogInfo]))"
  by (simp add: sample_points_on_cpu_def fixed_draws_def call_mesh_sample_def emit_def
      np_vstack_def numeral_2_eq_2)

text \<open>
  Claim C7, as amended. For \<open>num_samples = 0\<close> the thread-pool sampler returns an empty
  set of points, but the work is still issued: it submits \<open>num_threads\<close> worker tasks of 0
  points each. On a mesh with a face, the chunked sampler too still calls the draw
  primitive once for every face chunk, with count 0, before its \<open>np.vstack\<close>. In both,
  only the remainder draw is left out. \<open>mesh.sample\<close> is assumed to return as many points
  as it is asked for.
\<close>

theorem zero_samples_still_issue_draws:
  assumes "\<forall>g m n. 0 \<le> n \<longrightarrow> length (fst (mesh_sample X g m n)) = nat n"
    and "faces m \<noteq> []" and "0 < cs" and "0 < num_threads"
  shows "(\<exists>g'. sample_points_on_cpu X m 0 num_threads (g, []) =
              Inr ([], (g', LogInfo # replicate (nat num_threads) (Submit 0) @ [LogInfo]))) \<and>
         (\<exists>samples g' chunks.
            stream_faces (load_model_info (init fp cs) sc m) = Inr chunks \<and> chunks \<noteq> [] \<and>
            sample_points_cpu_draws X (load_model_info (init fp cs) sc m) 0 (g, []) =
              Inr (samples, (g', map (\<lambda>c. SampleSurfaceEven c 0) chunks)))"
proof
  let ?futures = "replicate (nat num_threads) (0::int)"
  have fne: "?futures \<noteq> []" using assms(4) by auto
  obtain results w1 where run: "run_tasks X m ?futures (emit LogInfo (g, [])) = (results, w1)"
    by (cases "run_tasks X m ?futures (emit LogInfo (g, []))")
  from run_tasks_trace[OF run]
  have tr1: "snd w1 = LogInfo # replicate (nat num_threads) (Submit 0)"
    and lr: "length results = length ?futures"
    by (simp_all add: emit_def)
  have "\<forall>k \<in> set ?futures. 0 \<le> k" by simp
  from run_tasks_length[OF assms(1) run this]
  have "int (length (concat results)) = 0" by (simp add: sum_list_replicate)
  then have empty: "concat results = []" by simp
  have rne: "results \<noteq> []" using lr fne by auto
  have "sample_points_on_cpu X m 0 num_threads (g, []) = Inr (concat results, emit LogInfo w1)"
    using assms(4) run rne by (simp add: sample_points_on_cpu_def Let_def np_vstack_def)
  then have "sample_points_on_cpu X m 0 num_threads (g, []) =
      Inr ([], (fst w1, LogInfo # replicate (nat num_threads) (Submit 0) @ [LogInfo]))"
    using empty tr1 by (simp add: emit_def)
  then show "\<exists>g'. sample_points_on_cpu X m 0 num_threads (g, []) =
              Inr ([], (g', LogInfo # replicate (nat num_threads) (Submit 0) @ [LogInfo]))"
    by blast
next
  from sample_points_cpu_draws_loaded[OF assms(2,3), of fp sc X 0 g]
  show "\<exists>samples g' chunks.
            stream_faces (load_model_info (init fp cs) sc m) = Inr chunks \<and> chunks \<noteq> [] \<and>
            sample_points_cpu_draws X (load_model_info (init fp cs) sc m) 0 (g, []) =
              Inr (samples, (g', map (\<lambda>c. SampleSurfaceEven c 0) chunks))"
    by auto
qed

theorem zero_samples_still_issue_draws_witness:
  "faces tetra \<noteq> [] \<and>
   (\<exists>g'. sample_points_on_cpu (fixed_draws False) tetra 0 4 (0, []) =
        Inr ([], (g', LogInfo # replicate (nat 4) (Submit 0) @ [LogInfo]))) \<and>
   (\<exists>samples g' chunks.
      stream_faces (load_model_info (init ''tetra.obj'' 3) False tetra) = Inr chunks \<and> chunks \<noteq> [] \<and>
      sample_points_cpu_draws (fixed_draws False) (load_model_info (init ''tetra.obj'' 3) False tetra) 0 (0, []) =
        Inr (samples, (g', map (\<lambda>c. SampleSurfaceEven c 0) chunks)))"
proof -
  have f: "faces tetra \<noteq> []" by (simp add: tetra_def)
  have c: "(0::int) < 3" "(0::int) < 4" by simp_all
  show ?thesis
    using zero_samples_still_issue_draws[OF fixed_draws_mesh_sample[of False] f c,
        where fp = "''tetra.obj''" and sc = False and g = 0]
      f
    by blast
qed

section \<open>Choosing the path\<close>





lemma sample_points_gpu_requested_device_present:
  "cuda_is_available X \<Longrightarrow>
   sample_points X h n True w = sample_points_gpu X h n (emit CudaIsAvailable w)"
  by (simp add: sample_points_def)

lemma sample_points_gpu_requested_device_missing:
  "\<not> cuda_is_available X \<Longrightarrow>
   sample_points X h n True w =
     sample_points_cpu X h n
       (emit (LogWarning ''GPU Acceleration was requested but CUDA is not available. Falling back to CPU processing.'')
          (emit CudaIsAvailable w))"
  by (simp add: sample_points_def)

lemma point_sampler_gpu_requested_device_missing:
  "\<not> cuda_is_available X \<Longrightarrow>
   point_sampler_sample_points X m n True k w =
     sample_points_on_cpu X m n k (emit CudaIsAvailable w)"
  by (simp add: point_sampler_sample_points_def)

text \<open>
  Claim C6 fails on \<open>PointSampler.sample_points\<close>. With the GPU requested and no device
  available, it runs the CPU sampler and emits no warning: the trace holds the device
  query, the two log lines of the CPU sampler and its three tasks, and no \<open>LogWarning\<close>.
  The handler's \<open>sample_points\<close> does emit the warning on the same request, before it
  calls its CPU sampler, as \<open>sample_points_gpu_requested_device_missing\<close> shows.
\<close>

theorem point_sampler_falls_back_without_warning:
  "point_sampler_sample_points (fixed_draws False) tetra 5 True 2 (0, []) =
     Inr ([(0, 0, 0), (0, 0, 0), (0, 0, 0), (0, 0, 0), (0, 0, 0)],
          (3, [CudaIsAvailable, LogInfo, Submit 2, Submit 2, Submit 1, LogInfo]))"
  by (simp add: point_sampler_sample_points_def sample_points_on_cpu_def fixed_draws_def
      call_mesh_sample_def emit_def np_vstack_def numeral_2_eq_2 tetra_def)

section \<open>The remainder draw\<close>

lemma gpu_batch_trace:
  assumes "gpu_batch X vs fs probs n k w = Inr (pts, w')"
  shows "\<exists>j. snd w' = snd w @ [Multinomial probs n, Rand j, Rand j] \<and>
             j = k (fst (multinomial X (fst w) probs n))"
  using assms
  by (auto simp: gpu_batch_def call_multinomial_def call_rand_def Let_def
      split: prod.splits sum.splits)

lemma gpu_chunk_loop_latest:
  "gpu_chunk_loop X vs spf chunks samples latest w = Inr (samples', latest', w') \<Longrightarrow>
   chunks \<noteq> [] \<Longrightarrow>
   \<exists>probs. latest' = Some (last chunks, probs) \<and>
           chunk_face_probs (float32 X) vs (last chunks) = Inr probs"
proof (induction chunks arbitrary: samples latest w)
  case Nil
  then show ?case by simp
next
  case (Cons c rest)
  from Cons.prems(1) obtain probs where p: "chunk_face_probs (float32 X) vs c = Inr probs"
    by (auto simp: allocate_gpu_tensor_def split: sum.splits)
  from Cons.prems(1) p obtain sp w1 where
    b: "gpu_batch X vs c probs (spf * int (length c)) (\<lambda>face_indices. int (length face_indices))
          (emit AllocateGpuTensor w) = Inr (sp, w1)"
    by (auto simp: allocate_gpu_tensor_def split: sum.splits)
  from Cons.prems(1) p b have
    r: "gpu_chunk_loop X vs spf rest (samples @ [sp]) (Some (c, probs)) w1 = Inr (samples', latest', w')"
    by (simp add: allocate_gpu_tensor_def)
  show ?case
  proof (cases "rest = []")
    case True
    with r p show ?thesis by simp
  next
    case False
    from Cons.IH[OF r False] False show ?thesis by simp
  qed
qed

lemma sample_points_cpu_remainder:
  assumes faces: "faces m \<noteq> []" and cs: "0 < cs"
    and rem: "0 < num_samples mod int (length (faces m))"
  shows "\<exists>samples g' tr.
           sample_points_cpu_draws X (load_model_info (init fp cs) sc m) num_samples (g, []) =
             Inr (samples, (g', tr)) \<and>
           tr \<noteq> [] \<and>
           last tr = SampleSurfaceEven (faces m) (num_samples mod int (length (faces m)))"
  using sample_points_cpu_draws_loaded[OF faces cs, of fp sc X num_samples g] rem
  by auto

lemma sample_points_gpu_remainder:
  assumes faces: "faces m \<noteq> []" and cs: "0 < cs"
    and rem: "0 < num_samples mod int (length (faces m))"
    and res: "sample_points_gpu X (load_model_info (init fp cs) sc m) num_samples (g, []) =
             Inr (pts, (g', tr))"
  shows "\<exists>chunks probs pre.
           stream_faces (load_model_info (init fp cs) sc m) = Inr chunks \<and> chunks \<noteq> [] \<and>
           chunk_face_probs (float32 X) (to_float32 (float32 X) (vertices m)) (last chunks) =
             Inr probs \<and>
           tr = pre @ [Multinomial probs (num_samples mod int (length (faces m))),
                       Rand (num_samples mod int (length (faces m))),
                       Rand (num_samples mod int (length (faces m))), GpuSessionExit]"
proof -
  let ?H = "load_model_info (init fp cs) sc m"
  let ?N = "int (length (faces m))"
  let ?spf = "num_samples div ?N"
  let ?rem = "num_samples mod ?N"
  let ?vs = "to_float32 (float32 X) (vertices m)"
  let ?chunks = "map (\<lambda>j. py_slice (faces m) j (j + cs)) (range_up 0 ?N cs)"
  let ?w1 = "emit AllocateGpuTensor (emit GpuSessionEnter (g, []))"
  have N: "0 < ?N" using faces by simp
  have st: "stream_faces ?H = Inr ?chunks" using cs by (rule stream_faces_loaded)
  have "is_chunking cs (faces m) ?chunks" using cs by (rule chunks_is_chunking)
  then have "concat ?chunks = faces m" by (simp add: is_chunking_def)
  with faces have ne: "?chunks \<noteq> []" by auto
  from res N st obtain samples latest w2 where
    loop: "gpu_chunk_loop X ?vs ?spf ?chunks [] None ?w1 = Inr (samples, latest, w2)"
    by (auto simp: sample_points_gpu_def Let_def allocate_gpu_tensor_def split: sum.splits)
  from gpu_chunk_loop_latest[OF loop ne] obtain probs where
    latest: "latest = Some (last ?chunks, probs)"
    and probs: "chunk_face_probs (float32 X) ?vs (last ?chunks) = Inr probs" by blast
  from res N st loop latest rem obtain extra w3 where
    batch: "gpu_batch X ?vs (last ?chunks) probs ?rem (\<lambda>_. ?rem) w2 = Inr (extra, w3)"
    by (auto simp: sample_points_gpu_def Let_def allocate_gpu_tensor_def split: sum.splits)
  from res N st loop latest rem batch have "(g', tr) = emit GpuSessionExit w3"
    by (auto simp: sample_points_gpu_def Let_def allocate_gpu_tensor_def np_vstack_def
        split: sum.splits if_splits)
  then have "tr = snd w3 @ [GpuSessionExit]" by (simp add: emit_def)
  moreover from gpu_batch_trace[OF batch]
  have "snd w3 = snd w2 @ [Multinomial probs ?rem, Rand ?rem, Rand ?rem]" by simp
  ultimately have "tr = snd w2 @ [Multinomial probs ?rem, Rand ?rem, Rand ?rem, GpuSessionExit]"
    by simp
  with st ne probs show ?thesis by blast
qed

text \<open>
  Claim C3. When \<open>num_samples mod total_faces\<close> is positive, the last draw the chunked
  CPU sampler makes is the remainder, from the faces of the whole mesh. The GPU sampler,
  whenever it returns, ends its trace with the remainder draw: a draw of the remainder
  count from the face probabilities of the last streamed chunk, the probabilities that
  chunk alone gives, followed by the two uniform draws and the end of the session. No
  face probabilities of the whole mesh are computed for it.
\<close>

theorem remainder_cpu_whole_mesh_gpu_latest_chunk:
  assumes "faces m \<noteq> []" and "0 < cs" and "0 < num_samples mod int (length (faces m))"
  shows "(\<exists>samples g' tr.
            sample_points_cpu_draws X (load_model_info (init fp cs) sc m) num_samples (g, []) =
              Inr (samples, (g', tr)) \<and>
            tr \<noteq> [] \<and>
            last tr = SampleSurfaceEven (faces m) (num_samples mod int (length (faces m)))) \<and>
         (\<forall>pts g' tr.
            sample_points_gpu X (load_model_info (init fp cs) sc m) num_samples (g, []) =
              Inr (pts, (g', tr)) \<longrightarrow>
            (\<exists>chunks probs pre.
               stream_faces (load_model_info (init fp cs) sc m) = Inr chunks \<and> chunks \<noteq> [] \<and>
               chunk_face_probs (float32 X) (to_float32 (float32 X) (vertices m)) (last chunks) =
                 Inr probs \<and>
               tr = pre @ [Multinomial probs (num_samples mod int (length (faces m))),
                           Rand (num_samples mod int (length (faces m))),
                           Rand (num_samples mod int (length (faces m))), GpuSessionExit]))"
  using sample_points_cpu_remainder[OF assms, of X fp sc g]
    sample_points_gpu_remainder[OF assms, of X fp sc g]
  by blast

lemma tetra_gather [simp]:
  "py_index [a, b, c, d] 0 = Inr a"
  "py_index [a, b, c, d] 1 = Inr b"
  "py_index [a, b, c, d] 2 = Inr c"
  "py_index [a, b, c, d] 3 = Inr d"
  "py_index [a, b, c] 0 = Inr a"
  "py_index [a, b, c] 1 = Inr b"
  "py_index [a, b, c] 2 = Inr c"
  "py_index [a] 0 = Inr a"
  by (simp_all add: py_index_def numeral_2_eq_2 numeral_3_eq_3)

lemma fixed_draws_exact [simp]: "float32 (fixed_draws b) = (\<lambda>x. x)"
  by (simp add: fixed_draws_def)

lemma to_float32_exact [simp]: "to_float32 (\<lambda>x. x) vs = vs"
  by (induction vs) (auto simp: to_float32_def)

text \<open>
  The face probabilities of the two chunks of the tetrahedron, in exact arithmetic. The
  last chunk holds one face. The first holds three faces, so its edge tensors are crossed
  by columns: the second face gets all the probability.
\<close>

lemma tetra_latest_chunk_probs:
  "chunk_face_probs (\<lambda>x. x) [(0, 0, 0), (1, 0, 0), (0, 1, 0), (0, 0, 1)] [(1, 2, 3)] = Inr [1]"
  by (simp add: chunk_face_probs_def col0_def col1_def col2_def face_areas_def torch_cross_def
      tensor_sum_def vnorm_def cross_def vsub_def)

lemma tetra_first_chunk_probs:
  "chunk_face_probs (\<lambda>x. x) [(0, 0, 0), (1, 0, 0), (0, 1, 0), (0, 0, 1)]
      [(0, 1, 2), (0, 1, 3), (0, 2, 3)] = Inr [0, 1, 0]"
  by (simp add: chunk_face_probs_def col0_def col1_def col2_def face_areas_def torch_cross_def
      tensor_sum_def vnorm_def cross_def vsub_def)

lemma tetra_gpu_returns:
  "\<exists>pts g' tr. sample_points_gpu (fixed_draws True)
      (load_model_info (init ''tetra.obj'' 3) False tetra) 5 (0, []) = Inr (pts, (g', tr)) \<and>
      length pts = 5"
  by (simp add: sample_points_gpu_def tetra_stream_faces
      tetra_first_chunk_probs tetra_latest_chunk_probs allocate_gpu_tensor_def emit_def
      gpu_batch_def call_multinomial_def call_rand_def weighted_points_def np_vstack_def
      col0_def col1_def col2_def weight_u_def weight_v_def weight_w_def Let_def tetra_fields
      fixed_draws_def eval_nat_numeral)

theorem remainder_cpu_whole_mesh_gpu_latest_chunk_witness:
  "faces tetra \<noteq> [] \<and> (0::int) < 5 mod int (length (faces tetra)) \<and>
   (\<exists>samples g' tr.
      sample_points_cpu_draws (fixed_draws True) (load_model_info (init ''tetra.obj'' 3) False tetra) 5 (0, []) =
        Inr (samples, (g', tr)) \<and>
      tr \<noteq> [] \<and> last tr = SampleSurfaceEven (faces tetra) 1) \<and>
   (\<exists>pts g' tr pre.
      sample_points_gpu (fixed_draws True) (load_model_info (init ''tetra.obj'' 3) False tetra) 5 (0, []) =
        Inr (pts, (g', tr)) \<and>
      tr = pre @ [Multinomial [1] 1, Rand 1, Rand 1, GpuSessionExit])"
proof -
  let ?H = "load_model_info (init ''tetra.obj'' 3) False tetra"
  have f: "faces tetra \<noteq> []" and c: "(0::int) < 3"
    and r: "(0::int) < 5 mod int (length (faces tetra))"
    by (simp_all add: tetra_fields)
  have e: "5 mod int (length (faces tetra)) = 1" by (simp add: tetra_fields)
  from tetra_gpu_returns obtain pts g' tr where
    g: "sample_points_gpu (fixed_draws True) ?H 5 (0, []) = Inr (pts, (g', tr))" by blast
  from remainder_cpu_whole_mesh_gpu_latest_chunk[OF f c r,
      where X = "fixed_draws True" and fp = "''tetra.obj''" and sc = False and g = 0]
  have cpu: "\<exists>samples g' tr. sample_points_cpu_draws (fixed_draws True) ?H 5 (0, []) =
        Inr (samples, (g', tr)) \<and>
      tr \<noteq> [] \<and> last tr = SampleSurfaceEven (faces tetra) 1"
    and gpu: "\<forall>pts g' tr. sample_points_gpu (fixed_draws True) ?H 5 (0, []) = Inr (pts, (g', tr)) \<longrightarrow>
      (\<exists>chunks probs pre. stream_faces ?H = Inr chunks \<and> chunks \<noteq> [] \<and>
         chunk_face_probs (\<lambda>x. x) (to_float32 (\<lambda>x. x) (vertices tetra)) (last chunks) = Inr probs \<and>
         tr = pre @ [Multinomial probs 1, Rand 1, Rand 1, GpuSessionExit])"
    unfolding e fixed_draws_exact by blast+
  from gpu g obtain chunks probs pre where
    "stream_faces ?H = Inr chunks"
    "chunk_face_probs (\<lambda>x. x) (to_float32 (\<lambda>x. x) (vertices tetra)) (last chunks) = Inr probs"
    "tr = pre @ [Multinomial probs 1, Rand 1, Rand 1, GpuSessionExit]" by blast
  then have "tr = pre @ [Multinomial [1] 1, Rand 1, Rand 1, GpuSessionExit]"
    by (auto simp: tetra_stream_faces tetra_fields tetra_latest_chunk_probs)
  with g cpu f r show ?thesis by blast
qed

section \<open>Single precision on the device\<close>

lemma floor_log2_eq:
  assumes "0 < x" and "2 powr real_of_int k \<le> x" and "x < 2 powr real_of_int (k + 1)"
  shows "\<lfloor>log 2 x\<rfloor> = k"
proof (rule floor_unique)
  show "real_of_int k \<le> log 2 x" using assms by (simp add: le_log_iff)
  have "log 2 x < real_of_int (k + 1)" using assms by (simp add: log_less_iff)
  then show "log 2 x < real_of_int k + 1" by simp
qed

lemma round_float32_zero: "round_float32 0 = 0"
  by (simp add: round_float32_def)

lemma round_float32_one: "round_float32 1 = 1"
  by (simp add: round_float32_def Let_def powr_numeral)

lemma two_powr_27: "(2::real) powr 27 = 134217728"
proof -
  have "(2::real) powr 27 = 2 ^ 27" by (simp add: powr_numeral)
  then show ?thesis by simp
qed

lemma round_float32_tenth: "round_float32 (1 / 10) = 13421773 / 134217728"
proof -
  have "\<lfloor>log 2 (1 / 10 :: real)\<rfloor> = - 4"
    by (rule floor_log2_eq) (simp_all add: powr_minus powr_numeral field_simps)
  then have k: "23 - \<lfloor>log 2 \<bar>1 / 10 :: real\<bar>\<rfloor> = 27" by simp
  have r: "round (1 / 10 * 134217728 :: real) = 13421773"
    by (simp add: round_def)
  show ?thesis
    unfolding round_float32_def Let_def k using r by (simp add: two_powr_27)
qed

lemma round_float32_fixed: "round_float32 (13421773 / 134217728) = 13421773 / 134217728"
proof -
  have "\<lfloor>log 2 (13421773 / 134217728 :: real)\<rfloor> = - 4"
    by (rule floor_log2_eq) (simp_all add: powr_minus powr_numeral field_simps)
  then have k: "23 - \<lfloor>log 2 \<bar>13421773 / 134217728 :: real\<bar>\<rfloor> = 27" by simp
  have r: "round (13421773 / 134217728 * 134217728 :: real) = 13421773"
    by simp
  show ?thesis
    unfolding round_float32_def Let_def k using r by (simp add: two_powr_27)
qed

lemma plane_fields:
  "vertices plane_mesh = [(1 / 10, 0, 0), (1 / 10, 1, 0), (1 / 10, 0, 1)]"
  "faces plane_mesh = [(0, 1, 2)]"
  by (simp_all add: plane_mesh_def)

lemma plane_device_vertices:
  "to_float32 round_float32 [(1 / 10, 0, 0), (1 / 10, 1, 0), (1 / 10, 0, 1)] =
     [(13421773 / 134217728, 0, 0), (13421773 / 134217728, 1, 0), (13421773 / 134217728, 0, 1)]"
  by (simp add: to_float32_def round_float32_zero round_float32_one round_float32_tenth)

lemma plane_sampled_point:
  "map_sum id fst (sample_points_on_gpu single_precision_draws plane_mesh 1 (0, [])) =
     Inr [(13421773 / 134217728, 0, 0)]"
  by (simp add: sample_points_on_gpu_def plane_fields single_precision_draws_def
      plane_device_vertices chunk_face_probs_def col0_def col1_def col2_def gpu_batch_def
      call_multinomial_def call_rand_def weighted_points_def weight_u_def weight_v_def
      weight_w_def vadd_def vscale_def emit_def Let_def
      round_float32_zero round_float32_one round_float32_fixed)

lemma plane_sampled_point_handler:
  "map_sum id fst (sample_points_gpu single_precision_draws
      (load_model_info (init ''plane.obj'' 1000000) False plane_mesh) 1 (0, [])) =
     Inr [(13421773 / 134217728, 0, 0)]"
  by (simp add: sample_points_gpu_def stream_faces_def py_range_def range_up.simps py_slice_def
      plane_fields single_precision_draws_def allocate_gpu_tensor_def np_vstack_def
      plane_device_vertices chunk_face_probs_def col0_def col1_def col2_def gpu_batch_def
      call_multinomial_def call_rand_def weighted_points_def weight_u_def weight_v_def
      weight_w_def vadd_def vscale_def emit_def Let_def
      round_float32_zero round_float32_one round_float32_fixed)

lemma plane_bounding_box:
  "calculate_bounding_box (load_model_info (init ''plane.obj'' 1000000) False plane_mesh) =
     Inr ((Fin (1 / 10), Fin 0, Fin 0), (Fin (1 / 10), Fin 1, Fin 1))"
  by (simp add: calculate_bounding_box_loaded plane_fields np_minimum_def np_maximum_def
      ext_min_def ext_max_def)

text \<open>
  Claim C9 as stated fails. On the triangle in the plane \<open>x = 1/10\<close> the bounding box has
  the bounds \<open>1/10\<close> and \<open>1/10\<close> on the first axis. The device holds the vertices in
  single precision, where \<open>1/10\<close> is \<open>13421773 / 2^27\<close>, a little more; with every
  uniform draw 0 each sampler returns the first vertex as the device holds it, and that
  point is outside the box.
\<close>

theorem single_precision_point_outside_bounding_box:
  "calculate_bounding_box (load_model_info (init ''plane.obj'' 1000000) False plane_mesh) =
     Inr ((Fin (1 / 10), Fin 0, Fin 0), (Fin (1 / 10), Fin 1, Fin 1)) \<and>
   map_sum id fst (sample_points_on_gpu single_precision_draws plane_mesh 1 (0, [])) =
     Inr [(13421773 / 134217728, 0, 0)] \<and>
   map_sum id fst (sample_points_gpu single_precision_draws
      (load_model_info (init ''plane.obj'' 1000000) False plane_mesh) 1 (0, [])) =
     Inr [(13421773 / 134217728, 0, 0)] \<and>
   \<not> in_box (Fin (1 / 10), Fin 0, Fin 0) (Fin (1 / 10), Fin 1, Fin 1)
       (13421773 / 134217728, 0, 0)"
  by (simp add: plane_bounding_box plane_sampled_point plane_sampled_point_handler
      in_box_def bounded_below_def bounded_above_def)

section \<open>Sampled points in exact arithmetic\<close>

lemma ext_le_refl [simp]: "ext_le a a"
  by (cases a) simp_all

lemma ext_le_trans: "ext_le a b \<Longrightarrow> ext_le b c \<Longrightarrow> ext_le a c"
  by (cases a; cases b; cases c) simp_all

lemma ext_le_total: "ext_le a b \<or> ext_le b a"
  by (cases a; cases b) auto

lemma ext_min_le: "ext_le (ext_min a b) a" "ext_le (ext_min a b) b"
  using ext_le_total[of a b] by (auto simp: ext_min_def)

lemma ext_max_ge: "ext_le a (ext_max a b)" "ext_le b (ext_max a b)"
  using ext_le_total[of a b] by (auto simp: ext_max_def)

lemma below_np_minimum_self: "bounded_below (np_minimum a v) v"
  by (cases a; cases v) (simp add: bounded_below_def np_minimum_def ext_min_le)

lemma above_np_maximum_self: "bounded_above (np_maximum a v) v"
  by (cases a; cases v) (simp add: bounded_above_def np_maximum_def ext_max_ge)

lemma below_np_minimum_mono: "bounded_below a p \<Longrightarrow> bounded_below (np_minimum a v) p"
  by (cases a; cases v; cases p)
    (auto simp: bounded_below_def np_minimum_def intro: ext_le_trans[OF ext_min_le(1)])

lemma above_np_maximum_mono: "bounded_above a p \<Longrightarrow> bounded_above (np_maximum a v) p"
  by (cases a; cases v; cases p)
    (auto simp: bounded_above_def np_maximum_def intro: ext_le_trans[OF _ ext_max_ge(1)])

lemma below_foldl_mono: "bounded_below a p \<Longrightarrow> bounded_below (foldl np_minimum a vs) p"
  by (induction vs arbitrary: a) (simp_all add: below_np_minimum_mono)

lemma above_foldl_mono: "bounded_above a p \<Longrightarrow> bounded_above (foldl np_maximum a vs) p"
  by (induction vs arbitrary: a) (simp_all add: above_np_maximum_mono)

lemma below_foldl: "v \<in> set vs \<Longrightarrow> bounded_below (foldl np_minimum a vs) v"
proof (induction vs arbitrary: a)
  case Nil
  then show ?case by simp
next
  case (Cons x vs)
  show ?case
  proof (cases "v = x")
    case True
    then show ?thesis by (simp add: below_foldl_mono below_np_minimum_self)
  next
    case False
    with Cons.prems have "v \<in> set vs" by simp
    from Cons.IH[OF this] show ?thesis by simp
  qed
qed

lemma above_foldl: "v \<in> set vs \<Longrightarrow> bounded_above (foldl np_maximum a vs) v"
proof (induction vs arbitrary: a)
  case Nil
  then show ?case by simp
next
  case (Cons x vs)
  show ?case
  proof (cases "v = x")
    case True
    then show ?thesis by (simp add: above_foldl_mono above_np_maximum_self)
  next
    case False
    with Cons.prems have "v \<in> set vs" by simp
    from Cons.IH[OF this] show ?thesis by simp
  qed
qed

lemma bounding_box_contains_vertices:
  assumes "0 < cs"
  shows "\<exists>lo hi. calculate_bounding_box (load_model_info (init fp cs) sc m) = Inr (lo, hi) \<and>
           (\<forall>v \<in> set (vertices m). in_box lo hi v)"
  using assms by (auto simp: calculate_bounding_box_loaded in_box_def below_foldl above_foldl)

lemma convex_lower:
  fixes r :: real
  assumes "r \<le> x" "r \<le> y" "r \<le> z" "u + v + w = 1" "0 \<le> u" "0 \<le> v" "0 \<le> w"
  shows "r \<le> u * x + v * y + w * z"
proof -
  have "u * r \<le> u * x" "v * r \<le> v * y" "w * r \<le> w * z"
    using assms by (simp_all add: mult_left_mono)
  moreover have "r = u * r + v * r + w * r"
    using assms(4) by (simp add: distrib_right[symmetric])
  ultimately show ?thesis by linarith
qed

lemma convex_upper:
  fixes r :: real
  assumes "x \<le> r" "y \<le> r" "z \<le> r" "u + v + w = 1" "0 \<le> u" "0 \<le> v" "0 \<le> w"
  shows "u * x + v * y + w * z \<le> r"
proof -
  have "u * x \<le> u * r" "v * y \<le> v * r" "w * z \<le> w * r"
    using assms by (simp_all add: mult_left_mono)
  moreover have "r = u * r + v * r + w * r"
    using assms(4) by (simp add: distrib_right[symmetric])
  ultimately show ?thesis by linarith
qed

lemma ext_convex_lower:
  assumes "ext_le l (Fin x)" "ext_le l (Fin y)" "ext_le l (Fin z)"
    "u + v + w = 1" "0 \<le> u" "0 \<le> v" "0 \<le> w"
  shows "ext_le l (Fin (u * x + v * y + w * z))"
  using assms by (cases l) (simp_all add: convex_lower)

lemma ext_convex_upper:
  assumes "ext_le (Fin x) h" "ext_le (Fin y) h" "ext_le (Fin z) h"
    "u + v + w = 1" "0 \<le> u" "0 \<le> v" "0 \<le> w"
  shows "ext_le (Fin (u * x + v * y + w * z)) h"
  using assms by (cases h) (simp_all add: convex_upper)


lemma in_box_combination:
  assumes "in_box lo hi a" "in_box lo hi b" "in_box lo hi c"
    "u + v + w = 1" "0 \<le> u" "0 \<le> v" "0 \<le> w"
  shows "in_box lo hi (combination u v w a b c)"
  using assms
  by (cases lo; cases hi; cases a; cases b; cases c)
    (simp add: in_box_def bounded_below_def bounded_above_def combination_def
      ext_convex_lower ext_convex_upper)

lemma py_index_in_set: "py_index xs i = Inr x \<Longrightarrow> x \<in> set xs"
  by (auto simp: py_index_def split: if_splits)

lemma convex_combination_in_box:
  assumes "convex_combination_of_face vs f p" and "\<forall>x \<in> set vs. in_box lo hi x"
  shows "in_box lo hi p"
proof -
  from assms(1) obtain u v w a b c i j k where
    wts: "u + v + w = 1" "0 \<le> u" "0 \<le> v" "0 \<le> w"
    and f: "f = (i, j, k)"
    and idx: "py_index vs i = Inr a" "py_index vs j = Inr b" "py_index vs k = Inr c"
    and p: "p = combination u v w a b c"
    by (cases f) (auto simp: convex_combination_of_face_def)
  from idx assms(2) have "in_box lo hi a" "in_box lo hi b" "in_box lo hi c"
    by (auto dest: py_index_in_set)
  from in_box_combination[OF this wts] p show ?thesis by simp
qed

lemma gather_subset: "gather xs idx = Inr ys \<Longrightarrow> set ys \<subseteq> set xs"
proof (induction idx arbitrary: ys)
  case Nil
  then show ?case by simp
next
  case (Cons i rest)
  from Cons.prems obtain x zs where
    x: "py_index xs i = Inr x" and zs: "gather xs rest = Inr zs" and ys: "ys = x # zs"
    by (auto split: sum.splits)
  from Cons.IH[OF zs] py_index_in_set[OF x] ys show ?case by simp
qed

lemma gather_nth:
  "gather xs idx = Inr ys \<Longrightarrow>
   length ys = length idx \<and> (\<forall>n < length idx. py_index xs (idx ! n) = Inr (ys ! n))"
proof (induction idx arbitrary: ys)
  case Nil
  then show ?case by simp
next
  case (Cons i rest)
  from Cons.prems obtain x zs where
    x: "py_index xs i = Inr x" and zs: "gather xs rest = Inr zs" and ys: "ys = x # zs"
    by (auto split: sum.splits)
  from Cons.IH[OF zs] have l: "length zs = length rest"
    and n: "\<forall>n < length rest. py_index xs (rest ! n) = Inr (zs ! n)" by simp_all
  show ?case
  proof (intro conjI allI impI)
    show "length ys = length (i # rest)" using l ys by simp
    fix n assume "n < length (i # rest)"
    then show "py_index xs ((i # rest) ! n) = Inr (ys ! n)"
      using x n ys by (cases n) simp_all
  qed
qed

lemma weights_scalar:
  fixes a b :: real
  assumes "0 \<le> a" "a \<le> 1" "0 \<le> b" "b \<le> 1"
  shows "(1 - sqrt a) + sqrt a * (1 - b) + sqrt a * b = 1 \<and>
         0 \<le> 1 - sqrt a \<and> 0 \<le> sqrt a * (1 - b) \<and> 0 \<le> sqrt a * b"
proof -
  have s: "0 \<le> sqrt a" "sqrt a \<le> 1" using assms by simp_all
  have "(1 - sqrt a) + sqrt a * (1 - b) + sqrt a * b = 1" by (simp add: algebra_simps)
  moreover have "0 \<le> sqrt a * (1 - b)" using s assms by (intro mult_nonneg_nonneg) simp_all
  moreover have "0 \<le> sqrt a * b" using s assms by (intro mult_nonneg_nonneg) simp_all
  ultimately show ?thesis using s by simp
qed

lemma weights_convex:
  assumes exact: "\<forall>x. R x = x"
    and "\<forall>x \<in> set a. 0 \<le> x \<and> x \<le> 1" and "\<forall>x \<in> set r2. 0 \<le> x \<and> x \<le> 1"
  shows "\<forall>(u, v, w) \<in> set (zip (weight_u R (map (\<lambda>x. R (sqrt x)) a))
                               (zip (weight_v R (map (\<lambda>x. R (sqrt x)) a) r2)
                                    (weight_w R (map (\<lambda>x. R (sqrt x)) a) r2))).
           u + v + w = 1 \<and> 0 \<le> u \<and> 0 \<le> v \<and> 0 \<le> w"
proof (clarify)
  fix u v w
  assume "(u, v, w) \<in> set (zip (weight_u R (map (\<lambda>x. R (sqrt x)) a))
                               (zip (weight_v R (map (\<lambda>x. R (sqrt x)) a) r2)
                                    (weight_w R (map (\<lambda>x. R (sqrt x)) a) r2)))"
  then obtain n where n: "n < length a" "n < length r2"
    and u: "u = 1 - sqrt (a ! n)" and v: "v = sqrt (a ! n) * (1 - r2 ! n)"
    and w: "w = sqrt (a ! n) * r2 ! n"
    using exact by (auto simp: in_set_zip weight_u_def weight_v_def weight_w_def)
  from n assms(2,3) have "0 \<le> a ! n" "a ! n \<le> 1" "0 \<le> r2 ! n" "r2 ! n \<le> 1"
    by (auto simp: all_set_conv_all_nth)
  from weights_scalar[OF this] u v w
  show "u + v + w = 1 \<and> 0 \<le> u \<and> 0 \<le> v \<and> 0 \<le> w" by simp
qed

lemma exact_combination:
  assumes "\<forall>x. R x = x"
  shows "vadd R (vadd R (vscale R u a) (vscale R v b)) (vscale R w c) = combination u v w a b c"
  using assms by (cases a; cases b; cases c) (simp add: vadd_def vscale_def combination_def)

lemma weighted_points_convex:
  assumes exact: "\<forall>x. R x = x"
    and res: "weighted_points R vs fs idx U V W = Inr pts"
    and wts: "\<forall>(u, v, w) \<in> set (zip U (zip V W)). u + v + w = 1 \<and> 0 \<le> u \<and> 0 \<le> v \<and> 0 \<le> w"
  shows "\<forall>p \<in> set pts. \<exists>f \<in> set fs. convex_combination_of_face vs f p"
proof
  fix p assume p: "p \<in> set pts"
  from res obtain sf p0 p1 p2 where
    gs: "gather fs idx = Inr sf"
    and g0: "gather vs (col0 sf) = Inr p0" and g1: "gather vs (col1 sf) = Inr p1"
    and g2: "gather vs (col2 sf) = Inr p2"
    and pts: "pts = map (\<lambda>(u, v, w, a, b, c).
                           vadd R (vadd R (vscale R u a) (vscale R v b)) (vscale R w c))
                      (zip U (zip V (zip W (zip p0 (zip p1 p2)))))"
    by (auto simp: weighted_points_def split: sum.splits)
  from p pts obtain u v w a b c where
    mem: "(u, v, w, a, b, c) \<in> set (zip U (zip V (zip W (zip p0 (zip p1 p2)))))"
    and pe: "p = vadd R (vadd R (vscale R u a) (vscale R v b)) (vscale R w c)"
    by auto
  from mem obtain n where
    n: "n < length U" "n < length V" "n < length W" "n < length p0" "n < length p1" "n < length p2"
    and e: "U ! n = u" "V ! n = v" "W ! n = w" "p0 ! n = a" "p1 ! n = b" "p2 ! n = c"
    by (auto simp: in_set_zip)
  from n e have "(u, v, w) \<in> set (zip U (zip V W))"
    by (auto simp: in_set_zip intro!: exI[of _ n])
  with wts have good: "u + v + w = 1" "0 \<le> u" "0 \<le> v" "0 \<le> w" by auto
  from gather_nth[OF g0] have l0: "length p0 = length sf"
    and i0: "\<forall>k < length sf. py_index vs (col0 sf ! k) = Inr (p0 ! k)"
    by (simp_all add: col0_def)
  from gather_nth[OF g1] have i1: "\<forall>k < length sf. py_index vs (col1 sf ! k) = Inr (p1 ! k)"
    by (simp add: col1_def)
  from gather_nth[OF g2] have i2: "\<forall>k < length sf. py_index vs (col2 sf ! k) = Inr (p2 ! k)"
    by (simp add: col2_def)
  have nsf: "n < length sf" using n(4) l0 by simp
  obtain i j k where f: "sf ! n = (i, j, k)" by (cases "sf ! n") auto
  have "sf ! n \<in> set sf" using nsf by simp
  with gather_subset[OF gs] have fin: "(i, j, k) \<in> set fs" using f by auto
  have "py_index vs i = Inr a" "py_index vs j = Inr b" "py_index vs k = Inr c"
    using i0 i1 i2 nsf f e by (auto simp: col0_def col1_def col2_def)
  moreover have "p = combination u v w a b c" using pe exact_combination[OF exact] by simp
  ultimately have "convex_combination_of_face vs (i, j, k) p"
    using good by (auto simp: convex_combination_of_face_def)
  with fin show "\<exists>f \<in> set fs. convex_combination_of_face vs f p" by blast
qed

lemma gpu_batch_convex:
  assumes exact: "\<forall>x. float32 X x = x"
    and contract: "\<forall>g n. \<forall>x \<in> set (fst (rand X g n)). 0 \<le> x \<and> x \<le> 1"
    and res: "gpu_batch X vs fs probs n k w = Inr (pts, w')"
  shows "\<forall>p \<in> set pts. \<exists>f \<in> set fs. convex_combination_of_face vs f p"
proof -
  obtain idx w1 where m: "call_multinomial X probs n w = (idx, w1)"
    by (cases "call_multinomial X probs n w")
  obtain a w2 where a: "call_rand X (k idx) w1 = (a, w2)"
    by (cases "call_rand X (k idx) w1")
  obtain r2 w3 where r2: "call_rand X (k idx) w2 = (r2, w3)"
    by (cases "call_rand X (k idx) w2")
  have ea: "a = fst (rand X (fst w1) (k idx))" and er: "r2 = fst (rand X (fst w2) (k idx))"
    using a r2 by (auto simp: call_rand_def split: prod.splits)
  have ua: "\<forall>x \<in> set a. 0 \<le> x \<and> x \<le> 1" unfolding ea using contract by blast
  have ur: "\<forall>x \<in> set r2. 0 \<le> x \<and> x \<le> 1" unfolding er using contract by blast
  from res m a r2 have
    "weighted_points (float32 X) vs fs idx
        (weight_u (float32 X) (map (\<lambda>x. float32 X (sqrt x)) a))
        (weight_v (float32 X) (map (\<lambda>x. float32 X (sqrt x)) a) r2)
        (weight_w (float32 X) (map (\<lambda>x. float32 X (sqrt x)) a) r2) = Inr pts"
    by (auto simp: gpu_batch_def Let_def split: sum.splits)
  from weighted_points_convex[OF exact this weights_convex[OF exact ua ur]] show ?thesis .
qed

lemma gpu_chunk_loop_convex:
  assumes exact: "\<forall>x. float32 X x = x"
    and contract: "\<forall>g n. \<forall>x \<in> set (fst (rand X g n)). 0 \<le> x \<and> x \<le> 1"
  shows "gpu_chunk_loop X vs spf chunks samples latest w = Inr (samples', latest', w') \<Longrightarrow>
         set (concat chunks) \<subseteq> F \<Longrightarrow>
         \<forall>p \<in> set (concat samples). \<exists>f \<in> F. convex_combination_of_face vs f p \<Longrightarrow>
         \<forall>p \<in> set (concat samples'). \<exists>f \<in> F. convex_combination_of_face vs f p"
proof (induction chunks arbitrary: samples latest w)
  case Nil
  then show ?case by simp
next
  case (Cons c rest)
  from Cons.prems(1) obtain probs where p: "chunk_face_probs (float32 X) vs c = Inr probs"
    by (auto simp: allocate_gpu_tensor_def split: sum.splits)
  from Cons.prems(1) p obtain sp w1 where
    b: "gpu_batch X vs c probs (spf * int (length c)) (\<lambda>face_indices. int (length face_indices))
          (emit AllocateGpuTensor w) = Inr (sp, w1)"
    by (auto simp: allocate_gpu_tensor_def split: sum.splits)
  from Cons.prems(1) p b have
    r: "gpu_chunk_loop X vs spf rest (samples @ [sp]) (Some (c, probs)) w1 = Inr (samples', latest', w')"
    by (simp add: allocate_gpu_tensor_def)
  have cF: "set c \<subseteq> F" and restF: "set (concat rest) \<subseteq> F" using Cons.prems(2) by auto
  from gpu_batch_convex[OF exact contract b] cF
  have "\<forall>p \<in> set sp. \<exists>f \<in> F. convex_combination_of_face vs f p" by blast
  with Cons.prems(3)
  have "\<forall>p \<in> set (concat (samples @ [sp])). \<exists>f \<in> F. convex_combination_of_face vs f p" by auto
  from Cons.IH[OF r restF this] show ?case .
qed

lemma to_float32_id: "\<forall>x. R x = x \<Longrightarrow> to_float32 R vs = vs"
  by (induction vs) (auto simp: to_float32_def)

lemma sample_points_gpu_convex:
  assumes exact: "\<forall>x. float32 X x = x"
    and contract: "\<forall>g n. \<forall>x \<in> set (fst (rand X g n)). 0 \<le> x \<and> x \<le> 1"
    and cs: "0 < cs"
    and res: "sample_points_gpu X (load_model_info (init fp cs) sc m) num_samples w = Inr (pts, w')"
  shows "\<forall>p \<in> set pts. \<exists>f \<in> set (faces m). convex_combination_of_face (vertices m) f p"
proof -
  let ?H = "load_model_info (init fp cs) sc m"
  let ?N = "int (length (faces m))"
  let ?spf = "num_samples div ?N"
  let ?rem = "num_samples mod ?N"
  let ?chunks = "map (\<lambda>j. py_slice (faces m) j (j + cs)) (range_up 0 ?N cs)"
  let ?w1 = "emit AllocateGpuTensor (emit GpuSessionEnter w)"
  have vs: "to_float32 (float32 X) (vertices m) = vertices m"
    using exact by (rule to_float32_id)
  from res have N: "?N \<noteq> 0"
    by (auto simp: sample_points_gpu_def split: if_splits)
  have st: "stream_faces ?H = Inr ?chunks" using cs by (rule stream_faces_loaded)
  have "is_chunking cs (faces m) ?chunks" using cs by (rule chunks_is_chunking)
  then have cc: "concat ?chunks = faces m" by (simp add: is_chunking_def)
  with N have ne: "?chunks \<noteq> []" by auto
  from res N st vs obtain samples latest w2 where
    loop: "gpu_chunk_loop X (vertices m) ?spf ?chunks [] None ?w1 = Inr (samples, latest, w2)"
    by (auto simp: sample_points_gpu_def Let_def allocate_gpu_tensor_def split: sum.splits)
  have sub: "set (concat ?chunks) \<subseteq> set (faces m)" using cc by simp
  from gpu_chunk_loop_convex[OF exact contract loop sub]
  have s: "\<forall>p \<in> set (concat samples). \<exists>f \<in> set (faces m).
             convex_combination_of_face (vertices m) f p" by simp
  show ?thesis
  proof (cases "0 < ?rem")
    case True
    from gpu_chunk_loop_latest[OF loop ne] obtain probs where
      latest: "latest = Some (last ?chunks, probs)" by blast
    have "last ?chunks \<in> set ?chunks" using ne by (rule last_in_set)
    then have "set (last ?chunks) \<subseteq> set (concat ?chunks)" by auto
    then have lsub: "set (last ?chunks) \<subseteq> set (faces m)" unfolding cc .
    from res N st vs loop True latest obtain extra w3 where
      batch: "gpu_batch X (vertices m) (last ?chunks) probs ?rem (\<lambda>_. ?rem) w2 = Inr (extra, w3)"
      by (auto simp: sample_points_gpu_def Let_def allocate_gpu_tensor_def split: sum.splits)
    from res N st vs loop True latest batch have "pts = concat (samples @ [extra])"
      by (auto simp: sample_points_gpu_def Let_def allocate_gpu_tensor_def np_vstack_def
          split: sum.splits if_splits)
    moreover from gpu_batch_convex[OF exact contract batch] lsub
    have "\<forall>p \<in> set extra. \<exists>f \<in> set (faces m). convex_combination_of_face (vertices m) f p"
      by blast
    ultimately show ?thesis using s by auto
  next
    case False
    from res N st vs loop False have "pts = concat samples"
      by (auto simp: sample_points_gpu_def Let_def allocate_gpu_tensor_def np_vstack_def
          split: sum.splits if_splits)
    with s show ?thesis by simp
  qed
qed

lemma sample_points_on_gpu_convex:
  assumes exact: "\<forall>x. float32 X x = x"
    and contract: "\<forall>g n. \<forall>x \<in> set (fst (rand X g n)). 0 \<le> x \<and> x \<le> 1"
    and res: "sample_points_on_gpu X m num_samples w = Inr (pts, w')"
  shows "\<forall>p \<in> set pts. \<exists>f \<in> set (faces m). convex_combination_of_face (vertices m) f p"
proof -
  have vs: "to_float32 (float32 X) (vertices m) = vertices m"
    using exact by (rule to_float32_id)
  from res vs obtain probs w1 where
    batch: "gpu_batch X (vertices m) (faces m) probs num_samples (\<lambda>_. num_samples)
              (emit LogInfo w) = Inr (pts, w1)"
    by (auto simp: sample_points_on_gpu_def Let_def split: sum.splits)
  from gpu_batch_convex[OF exact contract batch] show ?thesis .
qed

text \<open>
  Claim C9, as amended. In exact arithmetic, that is when the rounding of the device
  changes no number, and for uniform draws in \<open>[0, 1]\<close>: the weights \<open>1 - sqrt r1\<close>,
  \<open>sqrt r1 * (1 - r2)\<close> and \<open>sqrt r1 * r2\<close> of every sample add up to 1 and none is
  negative; every point that either GPU sampler returns is the combination, with such
  weights, of the three vertices of one face of the mesh; and so it lies in the bounding
  box of the handler loaded with that mesh. Nothing is said of the points computed in
  single precision, which can lie outside the box. The uniform draws are an external
  primitive, assumed to lie in the unit interval.
\<close>

theorem exact_arithmetic_points_convex_inside_bounding_box:
  assumes "\<forall>x. float32 X x = x"
    and "\<forall>g n. \<forall>x \<in> set (fst (rand X g n)). 0 \<le> x \<and> x \<le> 1"
    and "0 < cs"
  shows "(\<forall>a r2. (\<forall>x \<in> set a. 0 \<le> x \<and> x \<le> 1) \<and> (\<forall>x \<in> set r2. 0 \<le> x \<and> x \<le> 1) \<longrightarrow>
            (\<forall>(u, v, w) \<in> set (zip (weight_u (float32 X) (map (\<lambda>x. float32 X (sqrt x)) a))
                                   (zip (weight_v (float32 X) (map (\<lambda>x. float32 X (sqrt x)) a) r2)
                                        (weight_w (float32 X) (map (\<lambda>x. float32 X (sqrt x)) a) r2))).
               u + v + w = 1 \<and> 0 \<le> u \<and> 0 \<le> v \<and> 0 \<le> w)) \<and>
         (\<exists>lo hi.
            calculate_bounding_box (load_model_info (init fp cs) sc m) = Inr (lo, hi) \<and>
            (\<forall>pts w'. sample_points_gpu X (load_model_info (init fp cs) sc m) num_samples w =
                         Inr (pts, w') \<longrightarrow>
               (\<forall>p \<in> set pts.
                  (\<exists>f \<in> set (faces m). convex_combination_of_face (vertices m) f p) \<and>
                  in_box lo hi p)) \<and>
            (\<forall>pts w'. sample_points_on_gpu X m num_samples w = Inr (pts, w') \<longrightarrow>
               (\<forall>p \<in> set pts.
                  (\<exists>f \<in> set (faces m). convex_combination_of_face (vertices m) f p) \<and>
                  in_box lo hi p)))"
proof
  show "\<forall>a r2. (\<forall>x \<in> set a. 0 \<le> x \<and> x \<le> 1) \<and> (\<forall>x \<in> set r2. 0 \<le> x \<and> x \<le> 1) \<longrightarrow>
            (\<forall>(u, v, w) \<in> set (zip (weight_u (float32 X) (map (\<lambda>x. float32 X (sqrt x)) a))
                                   (zip (weight_v (float32 X) (map (\<lambda>x. float32 X (sqrt x)) a) r2)
                                        (weight_w (float32 X) (map (\<lambda>x. float32 X (sqrt x)) a) r2))).
               u + v + w = 1 \<and> 0 \<le> u \<and> 0 \<le> v \<and> 0 \<le> w)"
    using weights_convex[OF assms(1)] by blast
  from bounding_box_contains_vertices[OF assms(3), of fp sc m] obtain lo hi where
    bb: "calculate_bounding_box (load_model_info (init fp cs) sc m) = Inr (lo, hi)"
    and box: "\<forall>v \<in> set (vertices m). in_box lo hi v" by blast
  have g: "\<forall>pts w'. sample_points_gpu X (load_model_info (init fp cs) sc m) num_samples w =
                         Inr (pts, w') \<longrightarrow>
               (\<forall>p \<in> set pts.
                  (\<exists>f \<in> set (faces m). convex_combination_of_face (vertices m) f p) \<and>
                  in_box lo hi p)"
  proof (intro allI impI ballI)
    fix pts w' p
    assume r: "sample_points_gpu X (load_model_info (init fp cs) sc m) num_samples w = Inr (pts, w')"
      and p: "p \<in> set pts"
    from sample_points_gpu_convex[OF assms r] p obtain f where
      f: "f \<in> set (faces m)" "convex_combination_of_face (vertices m) f p" by blast
    from convex_combination_in_box[OF f(2) box] f
    show "(\<exists>f \<in> set (faces m). convex_combination_of_face (vertices m) f p) \<and> in_box lo hi p"
      by blast
  qed
  have o: "\<forall>pts w'. sample_points_on_gpu X m num_samples w = Inr (pts, w') \<longrightarrow>
               (\<forall>p \<in> set pts.
                  (\<exists>f \<in> set (faces m). convex_combination_of_face (vertices m) f p) \<and>
                  in_box lo hi p)"
  proof (intro allI impI ballI)
    fix pts w' p
    assume r: "sample_points_on_gpu X m num_samples w = Inr (pts, w')"
      and p: "p \<in> set pts"
    from sample_points_on_gpu_convex[OF assms(1,2) r] p obtain f where
      f: "f \<in> set (faces m)" "convex_combination_of_face (vertices m) f p" by blast
    from convex_combination_in_box[OF f(2) box] f
    show "(\<exists>f \<in> set (faces m). convex_combination_of_face (vertices m) f p) \<and> in_box lo hi p"
      by blast
  qed
  from bb g o show "\<exists>lo hi.
            calculate_bounding_box (load_model_info (init fp cs) sc m) = Inr (lo, hi) \<and>
            (\<forall>pts w'. sample_points_gpu X (load_model_info (init fp cs) sc m) num_samples w =
                         Inr (pts, w') \<longrightarrow>
               (\<forall>p \<in> set pts.
                  (\<exists>f \<in> set (faces m). convex_combination_of_face (vertices m) f p) \<and>
                  in_box lo hi p)) \<and>
            (\<forall>pts w'. sample_points_on_gpu X m num_samples w = Inr (pts, w') \<longrightarrow>
               (\<forall>p \<in> set pts.
                  (\<exists>f \<in> set (faces m). convex_combination_of_face (vertices m) f p) \<and>
                  in_box lo hi p))"
    by blast
qed

lemma tetra_on_gpu_returns:
  "\<exists>pts w'. sample_points_on_gpu (fixed_draws True) tetra 5 (0, []) = Inr (pts, w') \<and>
      length pts = 5"
  by (simp add: sample_points_on_gpu_def emit_def chunk_face_probs_def
      gpu_batch_def call_multinomial_def call_rand_def weighted_points_def np_vstack_def
      col0_def col1_def col2_def weight_u_def weight_v_def weight_w_def Let_def tetra_fields
      fixed_draws_def eval_nat_numeral)

lemma fixed_draws_exact_all: "\<forall>x. float32 (fixed_draws b) x = x"
  by simp

lemma fixed_draws_rand_unit:
  "\<forall>g n. \<forall>x \<in> set (fst (rand (fixed_draws b) g n)). 0 \<le> x \<and> x \<le> 1"
  by (simp add: fixed_draws_def)

theorem exact_arithmetic_points_convex_inside_bounding_box_witness:
  "\<exists>lo hi pts w' pts2 w2.
     calculate_bounding_box (load_model_info (init ''tetra.obj'' 3) False tetra) = Inr (lo, hi) \<and>
     sample_points_gpu (fixed_draws True) (load_model_info (init ''tetra.obj'' 3) False tetra) 5 (0, []) =
       Inr (pts, w') \<and>
     length pts = 5 \<and> list_all (in_box lo hi) pts \<and>
     list_all (\<lambda>p. list_ex (\<lambda>f. convex_combination_of_face (vertices tetra) f p) (faces tetra)) pts \<and>
     sample_points_on_gpu (fixed_draws True) tetra 5 (0, []) = Inr (pts2, w2) \<and>
     length pts2 = 5 \<and> list_all (in_box lo hi) pts2 \<and>
     list_all (\<lambda>p. list_ex (\<lambda>f. convex_combination_of_face (vertices tetra) f p) (faces tetra)) pts2"
proof -
  have c: "(0::int) < 3" by simp
  from tetra_gpu_returns obtain pts g' tr where
    r1: "sample_points_gpu (fixed_draws True) (load_model_info (init ''tetra.obj'' 3) False tetra) 5 (0, []) =
       Inr (pts, (g', tr))" and l1: "length pts = 5" by blast
  from tetra_on_gpu_returns obtain pts2 w2 where
    r2: "sample_points_on_gpu (fixed_draws True) tetra 5 (0, []) = Inr (pts2, w2)"
    and l2: "length pts2 = 5" by blast
  from exact_arithmetic_points_convex_inside_bounding_box[OF fixed_draws_exact_all[of True]
      fixed_draws_rand_unit[of True] c,
      where fp = "''tetra.obj''" and sc = False and m = tetra and num_samples = 5 and w = "(0, [])"]
  obtain lo hi where
    bb: "calculate_bounding_box (load_model_info (init ''tetra.obj'' 3) False tetra) = Inr (lo, hi)"
    and g: "\<forall>pts w'. sample_points_gpu (fixed_draws True)
               (load_model_info (init ''tetra.obj'' 3) False tetra) 5 (0, []) = Inr (pts, w') \<longrightarrow>
               (\<forall>p \<in> set pts.
                  (\<exists>f \<in> set (faces tetra). convex_combination_of_face (vertices tetra) f p) \<and>
                  in_box lo hi p)"
    and p: "\<forall>pts w'. sample_points_on_gpu (fixed_draws True) tetra 5 (0, []) = Inr (pts, w') \<longrightarrow>
               (\<forall>p \<in> set pts.
                  (\<exists>f \<in> set (faces tetra). convex_combination_of_face (vertices tetra) f p) \<and>
                  in_box lo hi p)"
    by blast
  from g r1 have a1: "list_all (in_box lo hi) pts"
    and a2: "list_all (\<lambda>p. list_ex (\<lambda>f. convex_combination_of_face (vertices tetra) f p) (faces tetra)) pts"
    by (simp_all add: list_all_iff list_ex_iff)
  from p r2 have b1: "list_all (in_box lo hi) pts2"
    and b2: "list_all (\<lambda>p. list_ex (\<lambda>f. convex_combination_of_face (vertices tetra) f p) (faces tetra)) pts2"
    by (simp_all add: list_all_iff list_ex_iff)
  from bb r1 l1 a1 a2 r2 l2 b1 b2 show ?thesis by blast
qed

end
